theory Spec2Isabelle
  imports Main
begin

section \<open>The short-ID allocator of back-end/api.py\<close>

text \<open>
  The module keeps its allocator in module-level globals. Two of them are constants of
  a deployment (\<open>REPLICAS\<close>, \<open>host_suffix\<close>); three are mutated by \<open>generate_key\<close>
  (\<open>key_anchor\<close>, \<open>KEY_LENGTH\<close>, \<open>MAX\<close>); two are Python sets of keys
  (\<open>active_ids\<close>, \<open>deleted_ids\<close>). The constants are a record that every function
  reads, the mutable globals a record that is passed in and returned.
\<close>

subsection \<open>Alphabet\<close>

definition chars_and_nums :: string where
  "chars_and_nums = ''0123456789abcdefghijklmnopqrstuvwxyz''"

definition DIGIT_LENGTH :: int where
  "DIGIT_LENGTH = int (length chars_and_nums)"

subsection \<open>Python's \<open>str\<close> on the loop index\<close>

text \<open>
  \<open>generate_anchor\<close> compares \<open>host_suffix\<close> with \<open>str(i)\<close> for the non-negative
  integers \<open>i\<close> of \<open>range(REPLICAS)\<close>: the decimal numeral without leading zeros.
\<close>

definition digit_char :: "nat \<Rightarrow> char" where
  "digit_char d = char_of (48 + d)"

fun str :: "nat \<Rightarrow> string" where
  "str n = (if n < 10 then [digit_char n] else str (n div 10) @ [digit_char (n mod 10)])"

declare str.simps [simp del]

text \<open>Reading a decimal numeral back; used only to show that \<open>str\<close> is injective.\<close>

definition digit_val :: "char \<Rightarrow> nat" where
  "digit_val c = of_char c - 48"

definition read_decimal :: "string \<Rightarrow> nat" where
  "read_decimal cs = foldl (\<lambda>a c. 10 * a + digit_val c) 0 cs"

subsection \<open>Deployment constants and allocator state\<close>

record deployment =
  REPLICAS :: int
  host_suffix :: string

record allocator =
  key_anchor :: int
  KEY_LENGTH :: nat
  MAX' :: int
  active_ids :: "string set"
  deleted_ids :: "string set"

subsection \<open>\<open>generate_anchor\<close>\<close>

text \<open>
  The loop returns at the first \<open>i\<close> of \<open>range(REPLICAS)\<close> with
  \<open>host_suffix == str(i)\<close>; when there is none (also when \<open>REPLICAS \<le> 0\<close>, where the
  range is empty) the function falls through to \<open>return -1, 0\<close>. The division is
  only evaluated inside the loop, hence with \<open>REPLICAS \<ge> 1\<close>.
\<close>

definition generate_anchor :: "deployment \<Rightarrow> string \<Rightarrow> nat \<Rightarrow> int \<times> int" where
  "generate_anchor d hs klen =
     (case find (\<lambda>i. hs = str i) [0..<nat (REPLICAS d)] of
        Some i \<Rightarrow>
          (let ID_SPACE = DIGIT_LENGTH ^ klen div REPLICAS d;
               anchor = ID_SPACE * int i - 1;
               my_max = anchor + ID_SPACE
           in (anchor, my_max))
      | None \<Rightarrow> (- 1, 0))"

text \<open>
  Module initialisation: \<open>KEY_LENGTH = 2\<close>,
  \<open>key_anchor, MAX = generate_anchor(host_suffix, KEY_LENGTH)\<close>, both sets empty.
\<close>

definition init :: "deployment \<Rightarrow> allocator" where
  "init d =
     (case generate_anchor d (host_suffix d) 2 of
        (a, m) \<Rightarrow> \<lparr>key_anchor = a, KEY_LENGTH = 2, MAX' = m,
                   active_ids = {}, deleted_ids = {}\<rparr>)"

text \<open>
  The integers a pair \<open>(key_anchor, MAX)\<close> delimits. \<open>key_anchor\<close> is one below the
  first key (the source: "-1 for the first key") and \<open>MAX = key_anchor + ID_SPACE\<close>,
  so the block of \<open>ID_SPACE\<close> integers is \<open>key_anchor + 1, ..., MAX\<close>: the half-open
  range \<open>[key_anchor + 1, MAX + 1)\<close>.
\<close>

definition block :: "deployment \<Rightarrow> nat \<Rightarrow> nat \<Rightarrow> int set" where
  "block d i klen = (case generate_anchor d (str i) klen of (a, m) \<Rightarrow> {a <.. m})"

subsection \<open>The encoding inside \<open>generate_key\<close>\<close>

text \<open>
  \<open>key_indices = [(key_anchor // pow(DIGIT_LENGTH, i)) % DIGIT_LENGTH
     for i in range(KEY_LENGTH - 1, -1, -1)]\<close> and
  \<open>key = ''.join(chars_and_nums[k] for k in key_indices)\<close>.
  Python's \<open>//\<close> and \<open>%\<close> round towards minus infinity, as \<open>div\<close> and \<open>mod\<close> on
  \<open>int\<close> do; every index is in \<open>[0, 36)\<close>, so the subscript never raises. There is
  no range check on the value.
\<close>

definition key_indices :: "int \<Rightarrow> nat \<Rightarrow> int list" where
  "key_indices v klen =
     map (\<lambda>i. (v div DIGIT_LENGTH ^ i) mod DIGIT_LENGTH) (rev [0..<klen])"

definition encode_key :: "int \<Rightarrow> nat \<Rightarrow> string" where
  "encode_key v klen = map (\<lambda>k. chars_and_nums ! nat k) (key_indices v klen)"

text \<open>
  Modelled from the spec: \<open>Decode\<close>, the left inverse of the encoding. The module
  has no decoder; the spec asks for one "for round-trip testing". It reads a key
  most-significant symbol first, each symbol standing for its position in the
  alphabet.
\<close>

fun index_of :: "char \<Rightarrow> string \<Rightarrow> nat" where
  "index_of c [] = 0"
| "index_of c (x # xs) = (if x = c then 0 else Suc (index_of c xs))"

definition decode_key :: "string \<Rightarrow> int" where
  "decode_key key =
     foldl (\<lambda>acc c. acc * DIGIT_LENGTH + int (index_of c chars_and_nums)) 0 key"

subsection \<open>\<open>generate_key\<close> and \<open>delete_id\<close>\<close>

text \<open>The \<open>else\<close> branch of \<open>generate_key\<close>: expand if needed, advance, encode.\<close>

definition mint :: "deployment \<Rightarrow> allocator \<Rightarrow> string \<times> allocator" where
  "mint d s =
     (let s1 = (if key_anchor s \<ge> MAX' s - 1
                then (case generate_anchor d (host_suffix d) (KEY_LENGTH s + 1) of
                        (a, m) \<Rightarrow> s\<lparr>KEY_LENGTH := KEY_LENGTH s + 1,
                                      key_anchor := a, MAX' := m\<rparr>)
                else s);
          s2 = s1\<lparr>key_anchor := key_anchor s1 + 1\<rparr>
      in (encode_key (key_anchor s2) (KEY_LENGTH s2), s2))"

text \<open>
  \<open>deleted_ids.pop()\<close> removes and returns an arbitrary member of the set, so
  \<open>generate_key\<close> yields the set of its possible results: one per member of a
  non-empty \<open>deleted_ids\<close>, the single minted key otherwise. Either way the key is
  then added to \<open>active_ids\<close>.
\<close>

definition generate_key :: "deployment \<Rightarrow> allocator \<Rightarrow> (string \<times> allocator) set" where
  "generate_key d s =
     (\<lambda>(key, s'). (key, s'\<lparr>active_ids := insert key (active_ids s')\<rparr>)) `
       (if deleted_ids s \<noteq> {}
        then (\<lambda>key. (key, s\<lparr>deleted_ids := deleted_ids s - {key}\<rparr>)) ` deleted_ids s
        else {mint d s})"

definition delete_id :: "string \<Rightarrow> allocator \<Rightarrow> allocator" where
  "delete_id del_id s =
     (if del_id \<in> active_ids s
      then s\<lparr>active_ids := active_ids s - {del_id},
             deleted_ids := insert del_id (deleted_ids s)\<rparr>
      else s)"

subsection \<open>Call sequences\<close>

text \<open>
  A call sequence from module initialisation, as the list of its events.
  \<open>Allocated fresh key\<close> is a \<open>generate_key()\<close> call that returned \<open>key\<close>, \<open>fresh\<close>
  telling whether it took the minting branch (\<open>deleted_ids\<close> was empty);
  \<open>Released k\<close> is a call \<open>delete_id(k)\<close>.
\<close>

datatype event = Allocated bool string | Released string

inductive trace :: "deployment \<Rightarrow> event list \<Rightarrow> allocator \<Rightarrow> bool" for d where
  trace_init: "trace d [] (init d)"
| trace_generate: "trace d evs s \<Longrightarrow> (key, s') \<in> generate_key d s \<Longrightarrow>
     trace d (evs @ [Allocated (deleted_ids s = {}) key]) s'"
| trace_delete: "trace d evs s \<Longrightarrow> trace d (evs @ [Released k]) (delete_id k s)"

text \<open>The same calls started in any state \<open>s\<close>, not only after initialisation.\<close>

inductive run :: "deployment \<Rightarrow> allocator \<Rightarrow> event list \<Rightarrow> allocator \<Rightarrow> bool"
  for d s where
  run_nil: "run d s [] s"
| run_generate: "run d s evs t \<Longrightarrow> (key, t') \<in> generate_key d t \<Longrightarrow>
     run d s (evs @ [Allocated (deleted_ids t = {}) key]) t'"
| run_delete: "run d s evs t \<Longrightarrow> run d s (evs @ [Released k]) (delete_id k t)"

fun fresh_keys :: "event list \<Rightarrow> string list" where
  "fresh_keys [] = []"
| "fresh_keys (Allocated fresh key # evs) =
     (if fresh then key # fresh_keys evs else fresh_keys evs)"
| "fresh_keys (Released k # evs) = fresh_keys evs"

text \<open>\<open>n\<close> successive \<open>generate_key()\<close> calls from module initialisation, with no
  \<open>delete_id\<close> in between: the possible lists of returned keys, each with the state
  reached.\<close>

fun allocations :: "deployment \<Rightarrow> nat \<Rightarrow> (string list \<times> allocator) set" where
  "allocations d 0 = {([], init d)}"
| "allocations d (Suc n) =
     (\<Union>(keys, s) \<in> allocations d n. (\<lambda>(key, s'). (keys @ [key], s')) ` generate_key d s)"

text \<open>The single-replica deployment the module is configured with
  (\<open>host_suffix = "0"\<close>, \<open>REPLICAS = 1\<close>).\<close>

definition single :: deployment where
  "single = \<lparr>REPLICAS = 1, host_suffix = ''0''\<rparr>"

section \<open>Basic facts\<close>

lemma DIGIT_LENGTH_36: "DIGIT_LENGTH = 36"
  by (simp add: DIGIT_LENGTH_def chars_and_nums_def)

lemma digit_val_digit_char: "d < 10 \<Longrightarrow> digit_val (digit_char d) = d"
  by (simp add: digit_val_def digit_char_def)

lemma read_decimal_snoc: "read_decimal (cs @ [c]) = 10 * read_decimal cs + digit_val c"
  by (simp add: read_decimal_def)

lemma read_decimal_str: "read_decimal (str n) = n"
proof (induction n rule: str.induct)
  case (1 n)
  show ?case
  proof (cases "n < 10")
    case True
    then show ?thesis
      by (simp add: str.simps [of n] read_decimal_def digit_val_digit_char)
  next
    case False
    with 1 have "read_decimal (str (n div 10)) = n div 10" by simp
    with False show ?thesis
      by (simp add: str.simps [of n] read_decimal_snoc digit_val_digit_char)
  qed
qed

lemma str_inject: "str i = str j \<longleftrightarrow> i = j"
  by (metis read_decimal_str)

lemma find_snoc:
  "find P (xs @ [x]) =
     (case find P xs of Some y \<Rightarrow> Some y | None \<Rightarrow> if P x then Some x else None)"
  by (induction xs) auto

lemma find_str_upt: "i < n \<Longrightarrow> find (\<lambda>j. str i = str j) [0..<n] = Some i"
proof (induction n)
  case 0
  then show ?case by simp
next
  case (Suc n)
  show ?case
  proof (cases "i < n")
    case True
    with Suc.IH show ?thesis by (simp add: find_snoc)
  next
    case False
    with Suc.prems have "i = n" by simp
    moreover have "find (\<lambda>j. str n = str j) [0..<n] = None"
      by (simp add: find_None_iff str_inject)
    ultimately show ?thesis by (simp add: find_snoc)
  qed
qed

subsection \<open>What \<open>generate_anchor\<close> returns\<close>

lemma generate_anchor_valid:
  assumes "int i < REPLICAS d"
  shows "generate_anchor d (str i) klen =
    (36 ^ klen div REPLICAS d * int i - 1,
     36 ^ klen div REPLICAS d * int i - 1 + 36 ^ klen div REPLICAS d)"
proof -
  from assms have "i < nat (REPLICAS d)" by simp
  then have "find (\<lambda>j. str i = str j) [0..<nat (REPLICAS d)] = Some i"
    by (rule find_str_upt)
  then show ?thesis
    by (simp add: generate_anchor_def DIGIT_LENGTH_36 Let_def)
qed

lemma generate_anchor_invalid:
  assumes "\<not> (\<exists>i. int i < REPLICAS d \<and> hs = str i)"
  shows "generate_anchor d hs klen = (- 1, 0)"
proof -
  from assms have "find (\<lambda>i. hs = str i) [0..<nat (REPLICAS d)] = None"
    by (auto simp: find_None_iff)
  then show ?thesis by (simp add: generate_anchor_def)
qed

subsection \<open>The two sets under each operation\<close>

lemma mint_sets:
  "active_ids (snd (mint d s)) = active_ids s"
  "deleted_ids (snd (mint d s)) = deleted_ids s"
  by (simp_all add: mint_def Let_def split: prod.splits)

lemma generate_key_recycle:
  "deleted_ids s \<noteq> {} \<Longrightarrow>
   generate_key d s =
     (\<lambda>k. (k, s\<lparr>deleted_ids := deleted_ids s - {k},
                  active_ids := insert k (active_ids s)\<rparr>)) ` deleted_ids s"
  by (auto simp: generate_key_def image_iff)

lemma generate_key_mint:
  "deleted_ids s = {} \<Longrightarrow>
   generate_key d s =
     {(fst (mint d s),
       (snd (mint d s))\<lparr>active_ids := insert (fst (mint d s)) (active_ids s)\<rparr>)}"
proof -
  assume e: "deleted_ids s = {}"
  obtain k t where m: "mint d s = (k, t)" by (cases "mint d s")
  with mint_sets(1) [of d s] have "active_ids t = active_ids s" by simp
  with e m show ?thesis by (simp add: generate_key_def)
qed

lemma generate_key_sets:
  assumes "(key, s') \<in> generate_key d s"
  shows "active_ids s' = insert key (active_ids s)"
    and "deleted_ids s' = deleted_ids s - {key}"
proof -
  show "active_ids s' = insert key (active_ids s)"
  proof (cases "deleted_ids s = {}")
    case True
    with assms show ?thesis by (simp add: generate_key_mint)
  next
    case False
    with assms show ?thesis by (auto simp: generate_key_recycle)
  qed
  show "deleted_ids s' = deleted_ids s - {key}"
  proof (cases "deleted_ids s = {}")
    case True
    with assms show ?thesis by (simp add: generate_key_mint mint_sets)
  next
    case False
    with assms show ?thesis by (auto simp: generate_key_recycle)
  qed
qed

lemma delete_id_sets:
  "active_ids (delete_id k s) = active_ids s - {k}"
  "deleted_ids (delete_id k s) =
     (if k \<in> active_ids s then insert k (deleted_ids s) else deleted_ids s)"
  by (simp_all add: delete_id_def)

lemma init_sets: "active_ids (init d) = {}" "deleted_ids (init d) = {}"
  by (simp_all add: init_def split: prod.splits)

lemma trace_disjoint: "trace d evs s \<Longrightarrow> active_ids s \<inter> deleted_ids s = {}"
proof (induction rule: trace.induct)
  case trace_init
  show ?case by (simp add: init_sets)
next
  case (trace_generate evs s key s')
  then show ?case by (auto simp: generate_key_sets)
next
  case (trace_delete evs s k)
  then show ?case by (auto simp: delete_id_sets)
qed

subsection \<open>The single-replica deployment, evaluated\<close>

lemma str_0: "str 0 = ''0''"
  by code_simp

lemma init_single:
  "init single = \<lparr>key_anchor = - 1, KEY_LENGTH = 2, MAX' = 1295,
                  active_ids = {}, deleted_ids = {}\<rparr>"
  by (simp add: init_def single_def generate_anchor_def str_0 DIGIT_LENGTH_36)

lemma encode_key_0_2: "encode_key 0 2 = ''00''"
  by code_simp

lemma mint_init_single:
  "mint single (init single) =
     (''00'', \<lparr>key_anchor = 0, KEY_LENGTH = 2, MAX' = 1295,
              active_ids = {}, deleted_ids = {}\<rparr>)"
  by (simp add: init_single mint_def Let_def encode_key_0_2)

lemma generate_key_init_single:
  "generate_key single (init single) =
     {(''00'', \<lparr>key_anchor = 0, KEY_LENGTH = 2, MAX' = 1295,
               active_ids = {''00''}, deleted_ids = {}\<rparr>)}"
  by (simp add: generate_key_mint init_sets mint_init_single)

lemma trace_single_one:
  "trace single [Allocated True ''00'']
     \<lparr>key_anchor = 0, KEY_LENGTH = 2, MAX' = 1295,
      active_ids = {''00''}, deleted_ids = {}\<rparr>"
proof -
  have "(''00'', \<lparr>key_anchor = 0, KEY_LENGTH = 2, MAX' = 1295,
               active_ids = {''00''}, deleted_ids = {}\<rparr>) \<in> generate_key single (init single)"
    by (simp add: generate_key_init_single)
  from trace_generate [OF trace_init this] show ?thesis
    by (simp add: init_sets)
qed

subsection \<open>The base-36 encoding\<close>

lemma distinct_chars_and_nums: "distinct chars_and_nums"
  by (simp add: chars_and_nums_def)

lemma length_chars_and_nums: "length chars_and_nums = 36"
  by (simp add: chars_and_nums_def)

lemma index_of_nth: "distinct xs \<Longrightarrow> k < length xs \<Longrightarrow> index_of (xs ! k) xs = k"
proof (induction xs arbitrary: k)
  case Nil
  then show ?case by simp
next
  case (Cons x xs)
  show ?case
  proof (cases k)
    case 0
    then show ?thesis by simp
  next
    case (Suc j)
    with Cons.prems have "j < length xs" "xs ! j \<in> set xs" "x \<notin> set xs" "distinct xs"
      by simp_all
    with Cons.IH [of j] Suc show ?thesis by auto
  qed
qed

lemma index_of_symbol:
  assumes "0 \<le> k" "k < 36"
  shows "int (index_of (chars_and_nums ! nat k) chars_and_nums) = k"
proof -
  from assms have "nat k < length chars_and_nums" by (simp add: length_chars_and_nums)
  with distinct_chars_and_nums have "index_of (chars_and_nums ! nat k) chars_and_nums = nat k"
    by (rule index_of_nth)
  with assms show ?thesis by simp
qed

lemma encode_key_Suc:
  "encode_key v (Suc klen) =
     chars_and_nums ! nat ((v div 36 ^ klen) mod 36) # encode_key v klen"
  by (simp add: encode_key_def key_indices_def DIGIT_LENGTH_36)

lemma encode_key_0: "encode_key v 0 = []"
  by (simp add: encode_key_def key_indices_def)

lemma length_encode_key: "length (encode_key v klen) = klen"
  by (simp add: encode_key_def key_indices_def)

lemma decode_fold_encode:
  "foldl (\<lambda>acc c. acc * 36 + int (index_of c chars_and_nums)) a (encode_key v klen)
     = a * 36 ^ klen + v mod 36 ^ klen"
proof (induction klen arbitrary: a)
  case 0
  show ?case by (simp add: encode_key_0)
next
  case (Suc klen)
  let ?d = "(v div 36 ^ klen) mod 36"
  have d: "0 \<le> ?d" "?d < 36" by simp_all
  have split: "v mod (36 ^ klen * 36) = 36 ^ klen * ?d + v mod 36 ^ klen"
    by (rule zmod_zmult2_eq) simp
  have "foldl (\<lambda>acc c. acc * 36 + int (index_of c chars_and_nums)) a (encode_key v (Suc klen))
      = foldl (\<lambda>acc c. acc * 36 + int (index_of c chars_and_nums)) (a * 36 + ?d) (encode_key v klen)"
    by (simp only: encode_key_Suc foldl_Cons index_of_symbol [OF d])
  also have "\<dots> = (a * 36 + ?d) * 36 ^ klen + v mod 36 ^ klen"
    by (rule Suc.IH)
  also have "\<dots> = a * 36 ^ Suc klen + v mod 36 ^ Suc klen"
    using split by (simp add: algebra_simps)
  finally show ?case .
qed

lemma decode_encode_mod: "decode_key (encode_key v klen) = v mod 36 ^ klen"
  using decode_fold_encode [of 0 v klen] by (simp add: decode_key_def DIGIT_LENGTH_36)

lemma digit_of_mod:
  assumes "i < klen"
  shows "((v mod 36 ^ klen) div 36 ^ i) mod 36 = (v div 36 ^ i) mod (36::int)"
proof -
  define j where "j = klen - Suc i"
  with assms have klen: "klen = i + Suc j" by simp
  let ?c = "(36::int) ^ Suc j"
  have "v mod (36 ^ i * ?c) = 36 ^ i * (v div 36 ^ i mod ?c) + v mod 36 ^ i"
    by (rule zmod_zmult2_eq) simp
  then have "(v mod 36 ^ klen) div 36 ^ i
      = (36 ^ i * (v div 36 ^ i mod ?c) + v mod 36 ^ i) div 36 ^ i"
    by (simp only: klen power_add)
  also have "\<dots> = v div 36 ^ i mod ?c + (v mod 36 ^ i) div 36 ^ i"
    by simp
  also have "(v mod 36 ^ i) div 36 ^ i = 0"
    by (simp add: div_pos_pos_trivial)
  finally have "(v mod 36 ^ klen) div 36 ^ i = v div 36 ^ i mod ?c" by simp
  moreover have "(36::int) dvd ?c" by simp
  ultimately show ?thesis by (simp only: mod_mod_cancel)
qed

lemma encode_key_mod: "encode_key (v mod 36 ^ klen) klen = encode_key v klen"
  by (simp add: encode_key_def key_indices_def DIGIT_LENGTH_36 digit_of_mod)

lemma decode_encode:
  assumes "0 \<le> v" "v < 36 ^ klen"
  shows "decode_key (encode_key v klen) = v"
  using assms by (simp add: decode_encode_mod)

subsection \<open>The blocks of the replicas\<close>

lemma block_valid:
  assumes "int i < REPLICAS d"
  shows "block d i klen =
    {36 ^ klen div REPLICAS d * int i ..< 36 ^ klen div REPLICAS d * int i + 36 ^ klen div REPLICAS d}"
  by (auto simp: block_def generate_anchor_valid [OF assms])

lemma in_block_iff:
  fixes S x q :: int
  assumes "0 < S"
  shows "x \<in> {S * q ..< S * q + S} \<longleftrightarrow> x div S = q"
proof
  assume "x \<in> {S * q ..< S * q + S}"
  then have "x = S * q + (x - S * q)" "0 \<le> x - S * q" "x - S * q < S" by simp_all
  then show "x div S = q" by (rule int_div_pos_eq)
next
  assume q: "x div S = q"
  have "x = S * (x div S) + x mod S" by simp
  moreover from assms have "0 \<le> x mod S" "x mod S < S" by simp_all
  ultimately show "x \<in> {S * q ..< S * q + S}" using q by auto
qed

lemma blocks_disjoint:
  assumes "int i < REPLICAS d" "int j < REPLICAS d" "i \<noteq> j"
  shows "block d i klen \<inter> block d j klen = {}"
proof (cases "0 < (36::int) ^ klen div REPLICAS d")
  case True
  have False if "x \<in> block d i klen" "x \<in> block d j klen" for x
  proof -
    from that(1) have "x div (36 ^ klen div REPLICAS d) = int i"
      by (simp only: block_valid [OF assms(1)] in_block_iff [OF True])
    moreover from that(2) have "x div (36 ^ klen div REPLICAS d) = int j"
      by (simp only: block_valid [OF assms(2)] in_block_iff [OF True])
    ultimately show False using assms(3) by simp
  qed
  then show ?thesis by blast
next
  case False
  moreover from assms(1) have "0 \<le> (36::int) ^ klen div REPLICAS d"
    by (simp add: pos_imp_zdiv_nonneg_iff)
  ultimately have "(36::int) ^ klen div REPLICAS d = 0" by simp
  then show ?thesis
    unfolding block_valid [OF assms(1)] block_valid [OF assms(2)] by simp
qed

lemma blocks_union:
  assumes "1 \<le> REPLICAS d"
  shows "(\<Union>i \<in> {0 ..< nat (REPLICAS d)}. block d i klen)
     = {0 ..< REPLICAS d * (36 ^ klen div REPLICAS d)}"
proof (cases "0 < (36::int) ^ klen div REPLICAS d")
  case True
  let ?S = "(36::int) ^ klen div REPLICAS d"
  have "x \<in> (\<Union>i \<in> {0 ..< nat (REPLICAS d)}. block d i klen) \<longleftrightarrow> x \<in> {0 ..< REPLICAS d * ?S}" for x
  proof
    assume "x \<in> (\<Union>i \<in> {0 ..< nat (REPLICAS d)}. block d i klen)"
    then obtain i where i: "i < nat (REPLICAS d)" "x \<in> block d i klen" by auto
    then have lt: "int i < REPLICAS d" by simp
    from i(2) have "x \<in> {?S * int i ..< ?S * int i + ?S}"
      by (simp only: block_valid [OF lt])
    then have x: "?S * int i \<le> x" "x < ?S * int i + ?S" by simp_all
    from True have "0 \<le> ?S * int i" by simp
    with x(1) have "0 \<le> x" by simp
    moreover have "?S * int i + ?S = ?S * (int i + 1)" by (simp add: algebra_simps)
    moreover from lt True have "?S * (int i + 1) \<le> ?S * REPLICAS d"
      by (intro mult_left_mono) simp_all
    ultimately show "x \<in> {0 ..< REPLICAS d * ?S}" using x(2) by (simp add: mult.commute)
  next
    assume x: "x \<in> {0 ..< REPLICAS d * ?S}"
    let ?q = "x div ?S"
    from x True have q0: "0 \<le> ?q" by (simp add: pos_imp_zdiv_nonneg_iff)
    have "?S * ?q + x mod ?S = x" by simp
    moreover from True have "0 \<le> x mod ?S" by simp
    ultimately have le: "?S * ?q \<le> x" by linarith
    have "?q < REPLICAS d"
    proof (rule ccontr)
      assume "\<not> ?q < REPLICAS d"
      then have "REPLICAS d \<le> ?q" by simp
      with True have "?S * REPLICAS d \<le> ?S * ?q" by (intro mult_left_mono) simp_all
      with le x show False by (simp add: mult.commute)
    qed
    with q0 have "nat ?q < nat (REPLICAS d)" by simp
    moreover have "x \<in> block d (nat ?q) klen"
    proof -
      from \<open>?q < REPLICAS d\<close> q0 have "int (nat ?q) < REPLICAS d" by simp
      then have "block d (nat ?q) klen = {?S * int (nat ?q) ..< ?S * int (nat ?q) + ?S}"
        by (rule block_valid)
      with q0 in_block_iff [OF True, of x ?q] show ?thesis by simp
    qed
    ultimately show "x \<in> (\<Union>i \<in> {0 ..< nat (REPLICAS d)}. block d i klen)" by auto
  qed
  then show ?thesis by blast
next
  case False
  moreover from assms have "0 \<le> (36::int) ^ klen div REPLICAS d"
    by (simp add: pos_imp_zdiv_nonneg_iff)
  ultimately have z: "(36::int) ^ klen div REPLICAS d = 0" by simp
  have "block d i klen = {}" if "i < nat (REPLICAS d)" for i
  proof -
    from that have "int i < REPLICAS d" by simp
    then show ?thesis by (simp add: block_valid z)
  qed
  with z show ?thesis by simp
qed

subsection \<open>Replica 2 of 4, evaluated\<close>

lemma str_2: "str 2 = ''2''"
  by code_simp

lemma encode_key_648_2: "encode_key 648 2 = ''i0''"
  by code_simp

lemma anchor_4_2:
  "generate_anchor \<lparr>REPLICAS = 4, host_suffix = ''2''\<rparr> ''2'' 2 = (647, 971)"
  using generate_anchor_valid [of 2 "\<lparr>REPLICAS = 4, host_suffix = ''2''\<rparr>" 2]
  by (simp add: str_2)

lemma init_4_2:
  "init \<lparr>REPLICAS = 4, host_suffix = ''2''\<rparr> =
     \<lparr>key_anchor = 647, KEY_LENGTH = 2, MAX' = 971, active_ids = {}, deleted_ids = {}\<rparr>"
  by (simp add: init_def anchor_4_2)

lemma mint_4_2:
  "mint \<lparr>REPLICAS = 4, host_suffix = ''2''\<rparr> (init \<lparr>REPLICAS = 4, host_suffix = ''2''\<rparr>) =
     (''i0'', \<lparr>key_anchor = 648, KEY_LENGTH = 2, MAX' = 971, active_ids = {}, deleted_ids = {}\<rparr>)"
  by (simp add: init_4_2 mint_def Let_def encode_key_648_2)

lemma generate_key_4_2:
  "generate_key \<lparr>REPLICAS = 4, host_suffix = ''2''\<rparr> (init \<lparr>REPLICAS = 4, host_suffix = ''2''\<rparr>) =
     {(''i0'', \<lparr>key_anchor = 648, KEY_LENGTH = 2, MAX' = 971,
               active_ids = {''i0''}, deleted_ids = {}\<rparr>)}"
  by (simp add: generate_key_mint init_sets mint_4_2)

subsection \<open>One call of \<open>generate_key\<close> or \<open>delete_id\<close>\<close>

lemma mint_no_expand:
  assumes "key_anchor s < MAX' s - 1"
  shows "mint d s =
    (encode_key (key_anchor s + 1) (KEY_LENGTH s), s\<lparr>key_anchor := key_anchor s + 1\<rparr>)"
  using assms by (simp add: mint_def Let_def)

lemma mint_expand:
  assumes "MAX' s - 1 \<le> key_anchor s"
    and "generate_anchor d (host_suffix d) (KEY_LENGTH s + 1) = (a, m)"
  shows "mint d s =
    (encode_key (a + 1) (KEY_LENGTH s + 1),
     s\<lparr>KEY_LENGTH := KEY_LENGTH s + 1, key_anchor := a + 1, MAX' := m\<rparr>)"
  using assms by (simp add: mint_def Let_def)

lemma mint_KEY_LENGTH:
  "KEY_LENGTH (snd (mint d s)) =
     (if MAX' s - 1 \<le> key_anchor s then KEY_LENGTH s + 1 else KEY_LENGTH s)"
proof (cases "MAX' s - 1 \<le> key_anchor s")
  case True
  obtain a m where "generate_anchor d (host_suffix d) (KEY_LENGTH s + 1) = (a, m)"
    by (cases "generate_anchor d (host_suffix d) (KEY_LENGTH s + 1)")
  with True show ?thesis by (simp add: mint_expand)
next
  case False
  then show ?thesis by (simp add: mint_no_expand)
qed

lemma generate_key_nonempty: "generate_key d s \<noteq> {}"
  by (simp add: generate_key_def)

lemma generate_key_recycle_frame:
  assumes "deleted_ids s \<noteq> {}" "(key, s') \<in> generate_key d s"
  shows "key \<in> deleted_ids s" "key_anchor s' = key_anchor s"
    "KEY_LENGTH s' = KEY_LENGTH s" "MAX' s' = MAX' s"
  using assms by (auto simp: generate_key_recycle)

lemma generate_key_KEY_LENGTH:
  assumes "(key, s') \<in> generate_key d s"
  shows "KEY_LENGTH s' =
     (if deleted_ids s = {} \<and> MAX' s - 1 \<le> key_anchor s
      then KEY_LENGTH s + 1 else KEY_LENGTH s)"
proof (cases "deleted_ids s = {}")
  case True
  with assms have "s' = (snd (mint d s))\<lparr>active_ids := insert (fst (mint d s)) (active_ids s)\<rparr>"
    by (simp add: generate_key_mint)
  then have "KEY_LENGTH s' = KEY_LENGTH (snd (mint d s))" by simp
  with True show ?thesis by (simp add: mint_KEY_LENGTH)
next
  case False
  with assms show ?thesis by (simp add: generate_key_recycle_frame(3))
qed

lemma delete_id_frame:
  "key_anchor (delete_id k s) = key_anchor s"
  "KEY_LENGTH (delete_id k s) = KEY_LENGTH s"
  "MAX' (delete_id k s) = MAX' s"
  by (simp_all add: delete_id_def)

lemma release_then_generate:
  assumes "k \<in> active_ids s"
  shows "fst ` generate_key d (delete_id k s) = insert k (deleted_ids s)"
proof -
  from assms have ne: "deleted_ids (delete_id k s) \<noteq> {}"
    by (simp add: delete_id_sets)
  have "fst ` generate_key d (delete_id k s) = deleted_ids (delete_id k s)"
    unfolding generate_key_recycle [OF ne] by (simp add: image_image)
  with assms show ?thesis by (simp add: delete_id_sets)
qed

lemma release_then_generate_only:
  assumes "k \<in> active_ids s" "deleted_ids s = {}"
  shows "generate_key d (delete_id k s) = {(k, s)}"
proof -
  from assms have ne: "deleted_ids (delete_id k s) \<noteq> {}"
    by (simp add: delete_id_sets)
  from assms have "insert k (active_ids s) = active_ids s" by auto
  with assms show ?thesis
    unfolding generate_key_recycle [OF ne] by (simp add: delete_id_def)
qed

subsection \<open>The key length along a run; the exhausted single replica\<close>

lemma run_KEY_LENGTH: "run d s evs s' \<Longrightarrow> KEY_LENGTH s \<le> KEY_LENGTH s'"
proof (induction rule: run.induct)
  case run_nil
  show ?case by simp
next
  case (run_generate evs t key t')
  from run_generate.hyps(2) have "KEY_LENGTH t \<le> KEY_LENGTH t'"
    by (simp add: generate_key_KEY_LENGTH)
  with run_generate.IH show ?case by simp
next
  case (run_delete evs t k)
  then show ?case by (simp add: delete_id_frame)
qed

lemma str_0_3: "generate_anchor single ''0'' 3 = (- 1, 46655)"
  using generate_anchor_valid [of 0 single 3] by (simp add: str_0 single_def)

lemma encode_key_0_3: "encode_key 0 3 = ''000''"
  by code_simp

lemma generate_key_single_exhausted:
  "generate_key single
     \<lparr>key_anchor = 1294, KEY_LENGTH = 2, MAX' = 1295, active_ids = A, deleted_ids = {}\<rparr>
   = {(''000'', \<lparr>key_anchor = 0, KEY_LENGTH = 3, MAX' = 46655,
                 active_ids = insert ''000'' A, deleted_ids = {}\<rparr>)}"
proof -
  have "generate_anchor single (host_suffix single) 3 = (- 1, 46655)"
    by (simp add: single_def str_0_3 [unfolded single_def])
  then have "mint single
      \<lparr>key_anchor = 1294, KEY_LENGTH = 2, MAX' = 1295, active_ids = A, deleted_ids = {}\<rparr>
    = (''000'', \<lparr>key_anchor = 0, KEY_LENGTH = 3, MAX' = 46655,
                 active_ids = A, deleted_ids = {}\<rparr>)"
    by (simp add: mint_def Let_def encode_key_0_3)
  then show ?thesis by (simp add: generate_key_mint)
qed

lemma key_length_steps:
  "(run d s evs s' \<longrightarrow> KEY_LENGTH s \<le> KEY_LENGTH s')
   \<and> (\<forall>key t. (key, t) \<in> generate_key d s \<longrightarrow>
         KEY_LENGTH t =
           (if deleted_ids s = {} \<and> MAX' s - 1 \<le> key_anchor s
            then KEY_LENGTH s + 1 else KEY_LENGTH s))
   \<and> KEY_LENGTH (delete_id k s) = KEY_LENGTH s"
proof (intro conjI allI impI)
  assume "run d s evs s'"
  then show "KEY_LENGTH s \<le> KEY_LENGTH s'" by (rule run_KEY_LENGTH)
next
  fix key t assume "(key, t) \<in> generate_key d s"
  then show "KEY_LENGTH t =
           (if deleted_ids s = {} \<and> MAX' s - 1 \<le> key_anchor s
            then KEY_LENGTH s + 1 else KEY_LENGTH s)"
    by (rule generate_key_KEY_LENGTH)
next
  show "KEY_LENGTH (delete_id k s) = KEY_LENGTH s" by (rule delete_id_frame)
qed

subsection \<open>Two keys issued and released on the single replica\<close>

lemma encode_key_1_2: "encode_key 1 2 = ''01''"
  by code_simp

lemma trace_single_two:
  "trace single [Allocated True ''00'', Allocated True ''01'']
     \<lparr>key_anchor = 1, KEY_LENGTH = 2, MAX' = 1295,
      active_ids = {''01'', ''00''}, deleted_ids = {}\<rparr>"
proof -
  let ?s1 = "\<lparr>key_anchor = 0, KEY_LENGTH = 2, MAX' = 1295,
      active_ids = {''00''}, deleted_ids = {}\<rparr>"
  have "mint single ?s1 = (''01'', ?s1\<lparr>key_anchor := 1\<rparr>)"
    by (simp add: mint_no_expand encode_key_1_2)
  then have "(''01'', \<lparr>key_anchor = 1, KEY_LENGTH = 2, MAX' = 1295,
      active_ids = {''01'', ''00''}, deleted_ids = {}\<rparr>) \<in> generate_key single ?s1"
    by (simp add: generate_key_mint)
  from trace_generate [OF trace_single_one this] show ?thesis by simp
qed

lemma trace_single_two_released:
  "trace single
     [Allocated True ''00'', Allocated True ''01'', Released ''00'', Released ''01'']
     \<lparr>key_anchor = 1, KEY_LENGTH = 2, MAX' = 1295,
      active_ids = {}, deleted_ids = {''01'', ''00''}\<rparr>"
proof -
  have diff: "{''01'', ''00''} - {''00''} = {''01''}" by auto
  have "delete_id ''01'' (delete_id ''00''
      \<lparr>key_anchor = 1, KEY_LENGTH = 2, MAX' = 1295,
       active_ids = {''01'', ''00''}, deleted_ids = {}\<rparr>)
    = \<lparr>key_anchor = 1, KEY_LENGTH = 2, MAX' = 1295,
       active_ids = {}, deleted_ids = {''01'', ''00''}\<rparr>"
    by (simp add: delete_id_def diff)
  with trace_delete [OF trace_delete [OF trace_single_two, of "''00''"], of "''01''"]
  show ?thesis by simp
qed

subsection \<open>A deployment whose \<open>host_suffix\<close> names no replica\<close>

lemma encode_key_zero: "encode_key 0 klen = replicate klen CHR ''0''"
proof -
  have "chars_and_nums ! 0 = CHR ''0''" by (simp add: chars_and_nums_def)
  then have "encode_key 0 klen = map (\<lambda>i. CHR ''0'') (rev [0..<klen])"
    by (simp add: encode_key_def key_indices_def DIGIT_LENGTH_36)
  then show ?thesis by (simp add: map_replicate_const)
qed

lemma misconfigured_init:
  assumes "\<forall>i. int i < REPLICAS d \<longrightarrow> host_suffix d \<noteq> str i"
  shows "init d = \<lparr>key_anchor = - 1, KEY_LENGTH = 2, MAX' = 0,
                   active_ids = {}, deleted_ids = {}\<rparr>"
proof -
  from assms have "generate_anchor d (host_suffix d) 2 = (- 1, 0)"
    by (intro generate_anchor_invalid) blast
  then show ?thesis by (simp add: init_def)
qed

lemma misconfigured_mint:
  assumes bad: "\<forall>i. int i < REPLICAS d \<longrightarrow> host_suffix d \<noteq> str i"
    and s: "MAX' s = 0" "key_anchor s = - 1 \<or> key_anchor s = 0"
  shows "mint d s =
    (replicate (KEY_LENGTH s + 1) CHR ''0'',
     s\<lparr>KEY_LENGTH := KEY_LENGTH s + 1, key_anchor := 0, MAX' := 0\<rparr>)"
proof -
  from bad have "generate_anchor d (host_suffix d) (KEY_LENGTH s + 1) = (- 1, 0)"
    by (intro generate_anchor_invalid) blast
  moreover from s have "MAX' s - 1 \<le> key_anchor s" by auto
  ultimately have "mint d s =
    (encode_key (- 1 + 1) (KEY_LENGTH s + 1),
     s\<lparr>KEY_LENGTH := KEY_LENGTH s + 1, key_anchor := - 1 + 1, MAX' := 0\<rparr>)"
    by (rule mint_expand [rotated])
  then show ?thesis by (simp add: encode_key_zero)
qed

lemma misconfigured_trace:
  assumes bad: "\<forall>i. int i < REPLICAS d \<longrightarrow> host_suffix d \<noteq> str i"
  shows "trace d evs s \<Longrightarrow> MAX' s = 0 \<and> (key_anchor s = - 1 \<or> key_anchor s = 0)"
proof (induction rule: trace.induct)
  case trace_init
  show ?case by (simp add: misconfigured_init [OF bad])
next
  case (trace_generate evs s key s')
  show ?case
  proof (cases "deleted_ids s = {}")
    case True
    from trace_generate.IH have "MAX' s = 0" "key_anchor s = - 1 \<or> key_anchor s = 0"
      by simp_all
    from misconfigured_mint [OF bad this] True trace_generate.hyps(2)
    show ?thesis by (simp add: generate_key_mint)
  next
    case False
    with trace_generate.hyps(2) trace_generate.IH show ?thesis
      by (simp add: generate_key_recycle_frame)
  qed
next
  case (trace_delete evs s k)
  then show ?case by (simp add: delete_id_frame)
qed

lemma misconfigured_generate_key:
  assumes bad: "\<forall>i. int i < REPLICAS d \<longrightarrow> host_suffix d \<noteq> str i"
    and t: "trace d evs s" and e: "deleted_ids s = {}"
  shows "generate_key d s =
    {(replicate (KEY_LENGTH s + 1) CHR ''0'',
      s\<lparr>KEY_LENGTH := KEY_LENGTH s + 1, key_anchor := 0, MAX' := 0,
        active_ids := insert (replicate (KEY_LENGTH s + 1) CHR ''0'') (active_ids s)\<rparr>)}"
proof -
  from misconfigured_trace [OF bad t]
  have "MAX' s = 0" "key_anchor s = - 1 \<or> key_anchor s = 0" by simp_all
  from misconfigured_mint [OF bad this] e show ?thesis
    by (simp add: generate_key_mint)
qed

lemma allocations_misconfigured:
  assumes bad: "\<forall>i. int i < REPLICAS d \<longrightarrow> host_suffix d \<noteq> str i"
  shows "allocations d n =
     {(map (\<lambda>j. replicate (j + 3) CHR ''0'') [0..<n],
       \<lparr>key_anchor = (if n = 0 then - 1 else 0), KEY_LENGTH = n + 2, MAX' = 0,
        active_ids = (\<lambda>j. replicate (j + 3) CHR ''0'') ` {0..<n}, deleted_ids = {}\<rparr>)}"
proof (induction n)
  case 0
  show ?case by (simp add: misconfigured_init [OF bad])
next
  case (Suc n)
  let ?s = "\<lparr>key_anchor = (if n = 0 then - 1 else 0), KEY_LENGTH = n + 2, MAX' = 0,
        active_ids = (\<lambda>j. replicate (j + 3) CHR ''0'') ` {0..<n}, deleted_ids = {}\<rparr>"
  have "MAX' ?s = 0" "key_anchor ?s = - 1 \<or> key_anchor ?s = 0" by simp_all
  from misconfigured_mint [OF bad this]
  have "mint d ?s = (replicate (n + 3) CHR ''0'',
      ?s\<lparr>KEY_LENGTH := n + 3, key_anchor := 0, MAX' := 0\<rparr>)"
    by (simp add: add.commute numeral_3_eq_3)
  then have g: "generate_key d ?s =
      {(replicate (n + 3) CHR ''0'',
        \<lparr>key_anchor = 0, KEY_LENGTH = n + 3, MAX' = 0,
         active_ids = insert (replicate (n + 3) CHR ''0'')
                        ((\<lambda>j. replicate (j + 3) CHR ''0'') ` {0..<n}),
         deleted_ids = {}\<rparr>)}"
    by (simp add: generate_key_mint)
  have img: "(\<lambda>j. replicate (j + 3) CHR ''0'') ` {0..<Suc n}
      = insert (replicate (n + 3) CHR ''0'') ((\<lambda>j. replicate (j + 3) CHR ''0'') ` {0..<n})"
    by (simp add: atLeast0_lessThan_Suc)
  have len: "Suc n + 2 = n + 3" by simp
  have ifz: "(if Suc n = 0 then - 1 else (0::int)) = 0" by simp
  have snoc: "map (\<lambda>j. replicate (j + 3) CHR ''0'') [0..<Suc n]
      = map (\<lambda>j. replicate (j + 3) CHR ''0'') [0..<n] @ [replicate (n + 3) CHR ''0'']"
    by simp
  show ?case
    unfolding allocations.simps Suc.IH
    by (simp only: UN_insert UN_empty Un_empty_right prod.case g image_insert image_empty
        img len snoc ifz) simp
qed

subsection \<open>Minted keys along a call sequence\<close>

lemma fresh_keys_append: "fresh_keys (xs @ ys) = fresh_keys xs @ fresh_keys ys"
  by (induction xs rule: fresh_keys.induct) simp_all

lemma fresh_keys_snoc:
  "fresh_keys (evs @ [Allocated fresh key]) =
     (if fresh then fresh_keys evs @ [key] else fresh_keys evs)"
  "fresh_keys (evs @ [Released k]) = fresh_keys evs"
  by (simp_all add: fresh_keys_append)

lemma encode_key_inject:
  assumes "0 \<le> v" "v < 36 ^ klen" "0 \<le> w" "w < 36 ^ klen"
    and "encode_key v klen = encode_key w klen"
  shows "v = w"
proof -
  from assms(5) have "decode_key (encode_key v klen) = decode_key (encode_key w klen)"
    by simp
  with assms(1-4) show ?thesis by (simp add: decode_encode)
qed

lemma generate_anchor_cases:
  "generate_anchor d hs klen = (- 1, 0)
   \<or> (\<exists>i. int i < REPLICAS d \<and>
         generate_anchor d hs klen =
           (36 ^ klen div REPLICAS d * int i - 1,
            36 ^ klen div REPLICAS d * int i - 1 + 36 ^ klen div REPLICAS d))"
proof (cases "\<exists>i. int i < REPLICAS d \<and> hs = str i")
  case True
  then obtain i where "int i < REPLICAS d" "hs = str i" by blast
  then show ?thesis using generate_anchor_valid [of i d klen] by blast
next
  case False
  then show ?thesis by (simp add: generate_anchor_invalid)
qed

lemma block_within_space:
  fixes R S :: int
  assumes "int i < R" "S = 36 ^ klen div R"
  shows "0 \<le> S * int i" "S * int i < 36 ^ klen" "S * int i + S \<le> 36 ^ klen"
proof -
  from assms(1) have R: "0 < R" by linarith
  with assms(2) have S: "0 \<le> S" by (simp add: pos_imp_zdiv_nonneg_iff)
  then show "0 \<le> S * int i" by simp
  have "R * S + 36 ^ klen mod R = 36 ^ klen" unfolding assms(2) by simp
  moreover from R have "0 \<le> (36::int) ^ klen mod R" by simp
  ultimately have RS: "R * S \<le> 36 ^ klen" by linarith
  from assms(1) have "int i + 1 \<le> R" by simp
  from this S have "S * (int i + 1) \<le> S * R" by (rule mult_left_mono)
  with RS have le: "S * int i + S \<le> 36 ^ klen" by (simp add: algebra_simps)
  then show "S * int i + S \<le> 36 ^ klen" .
  show "S * int i < 36 ^ klen"
  proof (cases "S = 0")
    case True
    then show ?thesis by simp
  next
    case False
    with S have "0 < S" by simp
    with le show ?thesis by linarith
  qed
qed

lemma generate_anchor_bounds:
  assumes "generate_anchor d hs klen = (a, m)"
  shows "- 1 \<le> a" "a + 1 < 36 ^ klen" "m < 36 ^ klen"
proof -
  have "- 1 \<le> a \<and> a + 1 < 36 ^ klen \<and> m < 36 ^ klen"
    using generate_anchor_cases [of d hs klen]
  proof
    assume "generate_anchor d hs klen = (- 1, 0)"
    with assms have "a = - 1" "m = 0" by simp_all
    then show ?thesis by simp
  next
    assume "\<exists>i. int i < REPLICAS d \<and>
         generate_anchor d hs klen =
           (36 ^ klen div REPLICAS d * int i - 1,
            36 ^ klen div REPLICAS d * int i - 1 + 36 ^ klen div REPLICAS d)"
    then obtain i where i: "int i < REPLICAS d"
      and g: "generate_anchor d hs klen =
           (36 ^ klen div REPLICAS d * int i - 1,
            36 ^ klen div REPLICAS d * int i - 1 + 36 ^ klen div REPLICAS d)"
      by blast
    define S where "S = (36::int) ^ klen div REPLICAS d"
    from block_within_space [OF i S_def]
    have "0 \<le> S * int i" "S * int i < 36 ^ klen" "S * int i + S \<le> 36 ^ klen" .
    moreover from g assms have "a = S * int i - 1" "m = S * int i - 1 + S"
      by (simp_all add: S_def)
    ultimately show ?thesis by simp
  qed
  then show "- 1 \<le> a" "a + 1 < 36 ^ klen" "m < 36 ^ klen" by simp_all
qed

lemma init_bounds:
  "- 1 \<le> key_anchor (init d)" "key_anchor (init d) < 36 ^ KEY_LENGTH (init d)"
  "MAX' (init d) \<le> 36 ^ KEY_LENGTH (init d)"
proof -
  obtain a m where g: "generate_anchor d (host_suffix d) 2 = (a, m)"
    by (cases "generate_anchor d (host_suffix d) 2")
  then have i: "init d = \<lparr>key_anchor = a, KEY_LENGTH = 2, MAX' = m,
                         active_ids = {}, deleted_ids = {}\<rparr>"
    by (simp add: init_def)
  from generate_anchor_bounds [OF g]
  have "- 1 \<le> a" "a + 1 < 36 ^ 2" "m < 36 ^ 2" .
  then show "- 1 \<le> key_anchor (init d)" "key_anchor (init d) < 36 ^ KEY_LENGTH (init d)"
    "MAX' (init d) \<le> 36 ^ KEY_LENGTH (init d)"
    by (simp_all add: i)
qed

lemma trace_fresh_invariant:
  "trace d evs s \<Longrightarrow>
     (- 1 \<le> key_anchor s \<and> key_anchor s < 36 ^ KEY_LENGTH s \<and> MAX' s \<le> 36 ^ KEY_LENGTH s)
     \<and> distinct (fresh_keys evs)
     \<and> (\<forall>k \<in> set (fresh_keys evs).
           length k < KEY_LENGTH s
           \<or> (\<exists>v. 0 \<le> v \<and> v \<le> key_anchor s \<and> k = encode_key v (KEY_LENGTH s)))"
proof (induction rule: trace.induct)
  case trace_init
  show ?case by (simp add: init_bounds)
next
  case (trace_delete evs s k)
  then show ?case by (simp add: fresh_keys_snoc delete_id_frame)
next
  case (trace_generate evs s key s')
  note IH = trace_generate.IH
  from IH have b: "- 1 \<le> key_anchor s" "key_anchor s < 36 ^ KEY_LENGTH s"
    "MAX' s \<le> 36 ^ KEY_LENGTH s" by simp_all
  from IH have dist: "distinct (fresh_keys evs)" by simp
  from IH have old: "length k < KEY_LENGTH s
      \<or> (\<exists>v. 0 \<le> v \<and> v \<le> key_anchor s \<and> k = encode_key v (KEY_LENGTH s))"
    if "k \<in> set (fresh_keys evs)" for k using that by blast
  show ?case
  proof (cases "deleted_ids s = {}")
    case False
    with trace_generate.hyps(2)
    have "key_anchor s' = key_anchor s" "KEY_LENGTH s' = KEY_LENGTH s" "MAX' s' = MAX' s"
      by (simp_all add: generate_key_recycle_frame)
    with IH False show ?thesis by (simp add: fresh_keys_snoc)
  next
    case True
    with trace_generate.hyps(2)
    have key: "key = fst (mint d s)"
      and s': "s' = (snd (mint d s))\<lparr>active_ids := insert (fst (mint d s)) (active_ids s)\<rparr>"
      by (simp_all add: generate_key_mint)
    show ?thesis
    proof (cases "key_anchor s < MAX' s - 1")
      case True
      from mint_no_expand [OF True, of d] key s'
      have k: "key = encode_key (key_anchor s + 1) (KEY_LENGTH s)"
        and f: "key_anchor s' = key_anchor s + 1" "KEY_LENGTH s' = KEY_LENGTH s" "MAX' s' = MAX' s"
        by simp_all
      from True b have in_range: "key_anchor s + 1 < 36 ^ KEY_LENGTH s" by linarith
      have new: "key \<notin> set (fresh_keys evs)"
      proof
        assume "key \<in> set (fresh_keys evs)"
        from old [OF this] show False
        proof
          assume "length key < KEY_LENGTH s"
          with k show False by (simp add: length_encode_key)
        next
          assume "\<exists>v. 0 \<le> v \<and> v \<le> key_anchor s \<and> key = encode_key v (KEY_LENGTH s)"
          then obtain v where v: "0 \<le> v" "v \<le> key_anchor s"
            "key = encode_key v (KEY_LENGTH s)" by blast
          from v(2) in_range have "v < 36 ^ KEY_LENGTH s" by linarith
          moreover from b have "0 \<le> key_anchor s + 1" by linarith
          moreover from v(3) k
          have "encode_key v (KEY_LENGTH s) = encode_key (key_anchor s + 1) (KEY_LENGTH s)"
            by simp
          ultimately have "v = key_anchor s + 1"
            using v(1) in_range by (intro encode_key_inject)
          with v(2) show False by simp
        qed
      qed
      have keep: "length k < KEY_LENGTH s'
          \<or> (\<exists>v. 0 \<le> v \<and> v \<le> key_anchor s' \<and> k = encode_key v (KEY_LENGTH s'))"
        if "k \<in> set (fresh_keys evs @ [key])" for k
      proof (cases "k = key")
        case True
        with k f b have "0 \<le> key_anchor s' \<and> key_anchor s' \<le> key_anchor s'
            \<and> k = encode_key (key_anchor s') (KEY_LENGTH s')" by simp
        then show ?thesis by blast
      next
        case False
        with that have "k \<in> set (fresh_keys evs)" by simp
        from old [OF this] show ?thesis
        proof
          assume "length k < KEY_LENGTH s"
          with f show ?thesis by simp
        next
          assume "\<exists>v. 0 \<le> v \<and> v \<le> key_anchor s \<and> k = encode_key v (KEY_LENGTH s)"
          then obtain v where "0 \<le> v" "v \<le> key_anchor s" "k = encode_key v (KEY_LENGTH s)"
            by blast
          with f have "0 \<le> v \<and> v \<le> key_anchor s' \<and> k = encode_key v (KEY_LENGTH s')"
            by simp
          then show ?thesis by blast
        qed
      qed
      from b in_range f have "- 1 \<le> key_anchor s' \<and> key_anchor s' < 36 ^ KEY_LENGTH s'
          \<and> MAX' s' \<le> 36 ^ KEY_LENGTH s'" by simp
      moreover from dist new have "distinct (fresh_keys evs @ [key])" by simp
      ultimately show ?thesis
        using keep \<open>deleted_ids s = {}\<close> by (simp add: fresh_keys_snoc)
    next
      case False
      then have ex: "MAX' s - 1 \<le> key_anchor s" by simp
      obtain a m where g: "generate_anchor d (host_suffix d) (KEY_LENGTH s + 1) = (a, m)"
        by (cases "generate_anchor d (host_suffix d) (KEY_LENGTH s + 1)")
      from mint_expand [OF ex g] key s'
      have k: "key = encode_key (a + 1) (KEY_LENGTH s + 1)"
        and f: "key_anchor s' = a + 1" "KEY_LENGTH s' = KEY_LENGTH s + 1" "MAX' s' = m"
        by simp_all
      from generate_anchor_bounds [OF g]
      have gb: "- 1 \<le> a" "a + 1 < 36 ^ (KEY_LENGTH s + 1)" "m < 36 ^ (KEY_LENGTH s + 1)" .
      have shorter: "length k < KEY_LENGTH s + 1" if "k \<in> set (fresh_keys evs)" for k
        using old [OF that]
      proof
        assume "length k < KEY_LENGTH s"
        then show ?thesis by simp
      next
        assume "\<exists>v. 0 \<le> v \<and> v \<le> key_anchor s \<and> k = encode_key v (KEY_LENGTH s)"
        then obtain v where "k = encode_key v (KEY_LENGTH s)" by blast
        then show ?thesis by (simp add: length_encode_key)
      qed
      have new: "key \<notin> set (fresh_keys evs)"
      proof
        assume "key \<in> set (fresh_keys evs)"
        from shorter [OF this] k show False by (simp add: length_encode_key)
      qed
      have keep: "length k < KEY_LENGTH s'
          \<or> (\<exists>v. 0 \<le> v \<and> v \<le> key_anchor s' \<and> k = encode_key v (KEY_LENGTH s'))"
        if "k \<in> set (fresh_keys evs @ [key])" for k
      proof (cases "k = key")
        case True
        with k f gb have "0 \<le> key_anchor s' \<and> key_anchor s' \<le> key_anchor s'
            \<and> k = encode_key (key_anchor s') (KEY_LENGTH s')" by simp
        then show ?thesis by blast
      next
        case False
        with that have "k \<in> set (fresh_keys evs)" by simp
        from shorter [OF this] f show ?thesis by simp
      qed
      from gb f have "- 1 \<le> key_anchor s' \<and> key_anchor s' < 36 ^ KEY_LENGTH s'
          \<and> MAX' s' \<le> 36 ^ KEY_LENGTH s'" by simp
      moreover from dist new have "distinct (fresh_keys evs @ [key])" by simp
      ultimately show ?thesis
        using keep \<open>deleted_ids s = {}\<close> by (simp add: fresh_keys_snoc)
    qed
  qed
qed

subsection \<open>Successive calls on the single replica\<close>

lemma allocations_single:
  "n \<le> 1295 \<Longrightarrow>
   allocations single n =
     {(map (\<lambda>j. encode_key (int j) 2) [0..<n],
       \<lparr>key_anchor = int n - 1, KEY_LENGTH = 2, MAX' = 1295,
        active_ids = (\<lambda>j. encode_key (int j) 2) ` {0..<n}, deleted_ids = {}\<rparr>)}"
proof (induction n)
  case 0
  show ?case by (simp add: init_single)
next
  case (Suc n)
  let ?s = "\<lparr>key_anchor = int n - 1, KEY_LENGTH = 2, MAX' = 1295,
        active_ids = (\<lambda>j. encode_key (int j) 2) ` {0..<n}, deleted_ids = {}\<rparr>"
  from Suc.prems have lt: "key_anchor ?s < MAX' ?s - 1" by simp
  have "mint single ?s = (encode_key (int n) 2, ?s\<lparr>key_anchor := int n\<rparr>)"
    using mint_no_expand [OF lt, of single] by simp
  then have g: "generate_key single ?s =
      {(encode_key (int n) 2,
        \<lparr>key_anchor = int n, KEY_LENGTH = 2, MAX' = 1295,
         active_ids = insert (encode_key (int n) 2) ((\<lambda>j. encode_key (int j) 2) ` {0..<n}),
         deleted_ids = {}\<rparr>)}"
    by (simp add: generate_key_mint)
  from Suc have IH: "allocations single n = {(map (\<lambda>j. encode_key (int j) 2) [0..<n], ?s)}"
    by simp
  have img: "(\<lambda>j. encode_key (int j) 2) ` {0..<Suc n}
      = insert (encode_key (int n) 2) ((\<lambda>j. encode_key (int j) 2) ` {0..<n})"
    by (simp add: atLeast0_lessThan_Suc)
  show ?case
    unfolding allocations.simps IH by (simp add: g img)
qed

lemma allocations_single_expand:
  assumes "n = 1295"
  shows "allocations single (Suc n) =
     {(map (\<lambda>j. encode_key (int j) 2) [0..<n] @ [''000''],
       \<lparr>key_anchor = 0, KEY_LENGTH = 3, MAX' = 46655,
        active_ids = insert ''000'' ((\<lambda>j. encode_key (int j) 2) ` {0..<n}),
        deleted_ids = {}\<rparr>)}"
proof -
  from assms have "n \<le> 1295" by simp
  note a = allocations_single [OF this]
  have g: "generate_key single
      \<lparr>key_anchor = int n - 1, KEY_LENGTH = 2, MAX' = 1295,
        active_ids = (\<lambda>j. encode_key (int j) 2) ` {0..<n}, deleted_ids = {}\<rparr>
    = {(''000'', \<lparr>key_anchor = 0, KEY_LENGTH = 3, MAX' = 46655,
        active_ids = insert ''000'' ((\<lambda>j. encode_key (int j) 2) ` {0..<n}),
        deleted_ids = {}\<rparr>)}"
    using generate_key_single_exhausted [of "(\<lambda>j. encode_key (int j) 2) ` {0..<n}"] assms
    by simp
  show ?thesis unfolding allocations.simps a by (simp add: g)
qed

lemma encode_key_1294_2: "encode_key 1294 2 = ''zy''"
  by code_simp

lemma encode_key_1295_2: "encode_key 1295 2 = ''zz''"
  by code_simp

lemma zz_not_minted:
  assumes "n = 1295"
  shows "''zz'' \<notin> set (map (\<lambda>j. encode_key (int j) 2) [0..<n] @ [''000''])"
proof
  assume "''zz'' \<in> set (map (\<lambda>j. encode_key (int j) 2) [0..<n] @ [''000''])"
  then obtain j where j: "j < n" "encode_key (int j) 2 = ''zz''" by auto
  with assms have "0 \<le> int j" "int j < 36 ^ 2" "(0::int) \<le> 1295" "(1295::int) < 36 ^ 2"
    by simp_all
  moreover from j have "encode_key (int j) 2 = encode_key 1295 2"
    by (simp add: encode_key_1295_2)
  ultimately have "int j = 1295" by (rule encode_key_inject)
  with j assms show False by simp
qed

lemma allocations_single_summary:
  assumes "n = 1295"
  shows "(\<lambda>(keys, s). (length keys, keys ! 0, keys ! (n - 1), keys ! n,
                        ''zz'' \<in> set keys, KEY_LENGTH s)) ` allocations single (Suc n)
     = {(Suc n, ''00'', ''zy'', ''000'', False, 3)}"
proof -
  let ?ks = "map (\<lambda>j. encode_key (int j) 2) [0..<n]"
  from assms have n: "0 < n" "n - 1 < n" by simp_all
  have "length (?ks @ [''000'']) = Suc n" by simp
  moreover from n have "(?ks @ [''000'']) ! 0 = ''00''"
    by (simp add: nth_append encode_key_0_2)
  moreover from n assms have "(?ks @ [''000'']) ! (n - 1) = ''zy''"
    by (simp add: nth_append encode_key_1294_2)
  moreover have "(?ks @ [''000'']) ! n = ''000''"
    by (simp add: nth_append)
  moreover note zz_not_minted [OF assms]
  ultimately show ?thesis
    by (simp only: allocations_single_expand [OF assms] image_insert image_empty
        prod.case allocator.simps)
qed

lemma block_single_0_2: "block single 0 2 = {0 ..< 1296}"
  using block_valid [of 0 single 2] by (simp add: single_def)

lemma allocations_single_before_limit:
  assumes "n = 1295"
  shows "(\<lambda>(keys, s). (length keys, key_anchor s + 1, MAX' s + 1,
                        key_anchor s + 1 \<in> block single 0 (KEY_LENGTH s),
                        deleted_ids s, KEY_LENGTH s,
                        (\<lambda>(key, s'). KEY_LENGTH s') ` generate_key single s))
           ` allocations single n
     = {(n, int n, 1296, True, {}, 2, {3})}"
proof -
  let ?s = "\<lparr>key_anchor = int n - 1, KEY_LENGTH = 2, MAX' = 1295,
        active_ids = (\<lambda>j. encode_key (int j) 2) ` {0..<n}, deleted_ids = {}\<rparr>"
  from assms have "n \<le> 1295" by simp
  note a = allocations_single [OF this]
  have g: "generate_key single ?s
    = {(''000'', \<lparr>key_anchor = 0, KEY_LENGTH = 3, MAX' = 46655,
        active_ids = insert ''000'' ((\<lambda>j. encode_key (int j) 2) ` {0..<n}),
        deleted_ids = {}\<rparr>)}"
    using generate_key_single_exhausted [of "(\<lambda>j. encode_key (int j) 2) ` {0..<n}"] assms
    by simp
  have l: "(\<lambda>(key, s'). KEY_LENGTH s') ` generate_key single ?s = {3}"
    by (simp only: g image_insert image_empty prod.case allocator.simps)
  have m: "key_anchor ?s + 1 \<in> block single 0 (KEY_LENGTH ?s) = True"
    using assms by (simp add: block_single_0_2)
  have "(\<lambda>(keys, s). (length keys, key_anchor s + 1, MAX' s + 1,
                        key_anchor s + 1 \<in> block single 0 (KEY_LENGTH s),
                        deleted_ids s, KEY_LENGTH s,
                        (\<lambda>(key, s'). KEY_LENGTH s') ` generate_key single s))
           ` allocations single n
     = {(length (map (\<lambda>j. encode_key (int j) 2) [0..<n]), key_anchor ?s + 1, MAX' ?s + 1,
         key_anchor ?s + 1 \<in> block single 0 (KEY_LENGTH ?s),
         deleted_ids ?s, KEY_LENGTH ?s,
         (\<lambda>(key, s'). KEY_LENGTH s') ` generate_key single ?s)}"
    by (simp only: a image_insert image_empty prod.case)
  also have "\<dots> = {(n, int n, 1296, True, {}, 2, {3})}"
    by (simp only: l m) simp
  finally show ?thesis .
qed

section \<open>The claims\<close>

text \<open>
  C1, the code at 1296 successive calls. On the single replica
  (\<open>REPLICAS = 1\<close>, \<open>host_suffix = "0"\<close>, \<open>KEY_LENGTH = 2\<close>) with no \<open>delete_id\<close>, the
  first \<open>generate_key()\<close> returns \<open>"00"\<close> and the 1295th returns \<open>"zy"\<close> (1294);
  the 1296th call already finds \<open>key_anchor >= MAX - 1\<close> (1294 against
  \<open>MAX = 1295\<close>), expands to length 3 and returns \<open>"000"\<close>. The key \<open>"zz"\<close> (1295)
  is never issued. The claim puts the expansion at the 1297th call, after all
  1296 keys of length 2.
\<close>

theorem expansion_one_call_early:
  "(\<lambda>(keys, s). (length keys, keys ! 0, keys ! 1294, keys ! 1295,
                   ''zz'' \<in> set keys, KEY_LENGTH s)) ` allocations single 1296
     = {(1296, ''00'', ''zy'', ''000'', False, 3)}"
  using allocations_single_summary [of 1295] by simp

text \<open>
  C10. In every state reachable by \<open>generate_key()\<close> and \<open>delete_id()\<close> calls,
  \<open>active_ids\<close> and \<open>deleted_ids\<close> are disjoint. \<open>generate_key\<close> adds the key it
  returns to \<open>active_ids\<close> and takes it out of \<open>deleted_ids\<close>; \<open>delete_id\<close> of an active
  key moves it from \<open>active_ids\<close> to \<open>deleted_ids\<close>; both leave the sets disjoint.
\<close>

theorem active_deleted_disjoint:
  assumes "trace d evs s"
  shows "active_ids s \<inter> deleted_ids s = {}
    \<and> (\<forall>key s'. (key, s') \<in> generate_key d s \<longrightarrow>
          active_ids s' = insert key (active_ids s) \<and> deleted_ids s' = deleted_ids s - {key}
          \<and> active_ids s' \<inter> deleted_ids s' = {})
    \<and> (\<forall>k \<in> active_ids s.
          active_ids (delete_id k s) = active_ids s - {k}
          \<and> deleted_ids (delete_id k s) = insert k (deleted_ids s)
          \<and> active_ids (delete_id k s) \<inter> deleted_ids (delete_id k s) = {})"
proof (intro conjI allI impI ballI)
  show inv: "active_ids s \<inter> deleted_ids s = {}"
    using assms by (rule trace_disjoint)
next
  fix key s' assume g: "(key, s') \<in> generate_key d s"
  show "active_ids s' = insert key (active_ids s)"
    using g by (rule generate_key_sets(1))
  show "deleted_ids s' = deleted_ids s - {key}"
    using g by (rule generate_key_sets(2))
  from trace_generate [OF assms g] show "active_ids s' \<inter> deleted_ids s' = {}"
    by (rule trace_disjoint)
next
  fix k assume k: "k \<in> active_ids s"
  show "active_ids (delete_id k s) = active_ids s - {k}"
    by (rule delete_id_sets(1))
  from k show "deleted_ids (delete_id k s) = insert k (deleted_ids s)"
    by (simp add: delete_id_def)
  from trace_delete [OF assms] show "active_ids (delete_id k s) \<inter> deleted_ids (delete_id k s) = {}"
    by (rule trace_disjoint)
qed

theorem active_deleted_disjoint_witness:
  "trace single [Allocated True ''00'']
     \<lparr>key_anchor = 0, KEY_LENGTH = 2, MAX' = 1295,
      active_ids = {''00''}, deleted_ids = {}\<rparr>
   \<and> active_ids \<lparr>key_anchor = 0, KEY_LENGTH = 2, MAX' = 1295,
      active_ids = {''00''}, deleted_ids = {}\<rparr>
     \<inter> deleted_ids \<lparr>key_anchor = 0, KEY_LENGTH = 2, MAX' = 1295,
      active_ids = {''00''}, deleted_ids = {}\<rparr> = {}"
proof -
  note t = trace_single_one
  from active_deleted_disjoint [OF t]
  have "active_ids \<lparr>key_anchor = 0, KEY_LENGTH = 2, MAX' = 1295,
      active_ids = {''00''}, deleted_ids = {}\<rparr>
     \<inter> deleted_ids \<lparr>key_anchor = 0, KEY_LENGTH = 2, MAX' = 1295,
      active_ids = {''00''}, deleted_ids = {}\<rparr> = {}"
    by (rule conjunct1)
  with t show ?thesis by (rule conjI)
qed

text \<open>
  C9. For every length \<open>L\<close> and every value \<open>v\<close> in \<open>[0, 36^L)\<close>, decoding the
  encoding of \<open>v\<close> at width \<open>L\<close> gives \<open>v\<close> back; hence the fixed-width base-36
  encoding that \<open>generate_key\<close> uses is injective on \<open>[0, 36^L)\<close>.
\<close>

theorem encode_key_roundtrip:
  "(\<forall>v. 0 \<le> v \<and> v < 36 ^ L \<longrightarrow> decode_key (encode_key v L) = v)
   \<and> inj_on (\<lambda>v. encode_key v L) {0 ..< 36 ^ L}"
proof (intro conjI allI impI)
  fix v :: int assume "0 \<le> v \<and> v < 36 ^ L"
  then show "decode_key (encode_key v L) = v" by (simp add: decode_encode)
next
  show "inj_on (\<lambda>v. encode_key v L) {0 ..< 36 ^ L}"
  proof (rule inj_on_inverseI)
    fix v :: int assume "v \<in> {0 ..< 36 ^ L}"
    then show "decode_key (encode_key v L) = v" by (simp add: decode_encode)
  qed
qed

theorem encode_key_roundtrip_witness:
  "(0::int) \<le> 648 \<and> (648::int) < 36 ^ 2 \<and> decode_key (encode_key 648 2) = 648"
proof -
  have h: "(0::int) \<le> 648 \<and> (648::int) < 36 ^ 2" by simp
  from encode_key_roundtrip [of 2]
  have "\<forall>v. 0 \<le> v \<and> v < 36 ^ 2 \<longrightarrow> decode_key (encode_key v 2) = v"
    by (rule conjunct1)
  then have "0 \<le> (648::int) \<and> (648::int) < 36 ^ 2 \<longrightarrow> decode_key (encode_key 648 2) = 648"
    by (rule spec)
  from this h have "decode_key (encode_key 648 2) = 648" by (rule mp)
  with h show ?thesis by simp
qed

text \<open>
  C8 as stated fails: the encoding has no domain check. A value outside
  \<open>[0, 36^L)\<close> is encoded like its residue: \<open>1296\<close> at width 2 gives \<open>"00"\<close>, the
  key of \<open>0\<close>, and \<open>-1\<close> gives \<open>"zz"\<close>.
\<close>

theorem encode_key_no_domain_error:
  "encode_key 1296 2 = ''00'' \<and> encode_key 0 2 = ''00'' \<and> encode_key (- 1) 2 = ''zz''"
  by code_simp

text \<open>
  C8, amended. Encoding a value outside \<open>[0, 36^L)\<close> does not fail: the result is the
  width-\<open>L\<close> key of the value reduced modulo \<open>36^L\<close>.
\<close>

theorem encode_key_wraps: "encode_key v L = encode_key (v mod 36 ^ L) L \<and> length (encode_key v L) = L"
  by (simp add: encode_key_mod length_encode_key)

text \<open>
  C5 as stated fails: for four replicas and length 2 the partitioner returns
  \<open>(647, 971)\<close> for index 2, not \<open>(648, 972)\<close>. \<open>key_anchor\<close> is the integer before
  the block ("-1 for the first key") and \<open>MAX\<close> is \<open>key_anchor + ID_SPACE\<close>.
\<close>

theorem partitioner_returns_shifted_anchor:
  "generate_anchor \<lparr>REPLICAS = 4, host_suffix = ''2''\<rparr> ''2'' 2 = (647, 971)
   \<and> generate_anchor \<lparr>REPLICAS = 4, host_suffix = ''2''\<rparr> ''2'' 2 \<noteq> (648, 972)"
  by (simp add: anchor_4_2)

text \<open>
  C5, amended. For every replica index below the count and every length,
  \<open>generate_anchor\<close> returns \<open>key_anchor = (36^L div count) * index - 1\<close> and
  \<open>MAX = key_anchor + 36^L div count\<close>, so the block \<open>key_anchor + 1, ..., MAX\<close> is
  the half-open range from \<open>(36^L div count) * index\<close> of \<open>36^L div count\<close> integers.
  For count 4 and length 2, index 2 gets \<open>(647, 971)\<close>, its block is \<open>[648, 972)\<close>,
  and its first \<open>generate_key()\<close> returns the width-2 encoding of 648, \<open>"i0"\<close>.
\<close>

theorem partitioner_block:
  "(int i < REPLICAS d \<longrightarrow>
      generate_anchor d (str i) L =
        (36 ^ L div REPLICAS d * int i - 1,
         (36 ^ L div REPLICAS d * int i - 1) + 36 ^ L div REPLICAS d)
      \<and> block d i L =
        {36 ^ L div REPLICAS d * int i ..< 36 ^ L div REPLICAS d * int i + 36 ^ L div REPLICAS d})
   \<and> generate_anchor \<lparr>REPLICAS = 4, host_suffix = ''2''\<rparr> (str 2) 2 = (647, 971)
   \<and> block \<lparr>REPLICAS = 4, host_suffix = ''2''\<rparr> 2 2 = {648 ..< 972}
   \<and> fst ` generate_key \<lparr>REPLICAS = 4, host_suffix = ''2''\<rparr>
             (init \<lparr>REPLICAS = 4, host_suffix = ''2''\<rparr>) = {encode_key 648 2}
   \<and> encode_key 648 2 = ''i0''"
proof (intro conjI impI)
  assume "int i < REPLICAS d"
  then show "generate_anchor d (str i) L =
        (36 ^ L div REPLICAS d * int i - 1,
         (36 ^ L div REPLICAS d * int i - 1) + 36 ^ L div REPLICAS d)"
    by (rule generate_anchor_valid)
next
  assume "int i < REPLICAS d"
  then show "block d i L =
        {36 ^ L div REPLICAS d * int i ..< 36 ^ L div REPLICAS d * int i + 36 ^ L div REPLICAS d}"
    by (rule block_valid)
next
  show "generate_anchor \<lparr>REPLICAS = 4, host_suffix = ''2''\<rparr> (str 2) 2 = (647, 971)"
    by (simp add: str_2 anchor_4_2)
next
  show "block \<lparr>REPLICAS = 4, host_suffix = ''2''\<rparr> 2 2 = {648 ..< 972}"
    using block_valid [of 2 "\<lparr>REPLICAS = 4, host_suffix = ''2''\<rparr>" 2] by simp
next
  show "fst ` generate_key \<lparr>REPLICAS = 4, host_suffix = ''2''\<rparr>
             (init \<lparr>REPLICAS = 4, host_suffix = ''2''\<rparr>) = {encode_key 648 2}"
    by (simp add: generate_key_4_2 encode_key_648_2)
next
  show "encode_key 648 2 = ''i0''" by (rule encode_key_648_2)
qed

theorem partitioner_block_witness:
  "int 1 < REPLICAS \<lparr>REPLICAS = 3, host_suffix = ''1''\<rparr>
   \<and> generate_anchor \<lparr>REPLICAS = 3, host_suffix = ''1''\<rparr> (str 1) 2 = (431, 863)
   \<and> block \<lparr>REPLICAS = 3, host_suffix = ''1''\<rparr> 1 2 = {432 ..< 864}"
proof -
  have h: "int 1 < REPLICAS \<lparr>REPLICAS = 3, host_suffix = ''1''\<rparr>" by simp
  from partitioner_block [of 1 "\<lparr>REPLICAS = 3, host_suffix = ''1''\<rparr>" 2]
  have "int 1 < REPLICAS \<lparr>REPLICAS = 3, host_suffix = ''1''\<rparr> \<longrightarrow>
      generate_anchor \<lparr>REPLICAS = 3, host_suffix = ''1''\<rparr> (str 1) 2 =
        (36 ^ 2 div REPLICAS \<lparr>REPLICAS = 3, host_suffix = ''1''\<rparr> * int 1 - 1,
         (36 ^ 2 div REPLICAS \<lparr>REPLICAS = 3, host_suffix = ''1''\<rparr> * int 1 - 1)
           + 36 ^ 2 div REPLICAS \<lparr>REPLICAS = 3, host_suffix = ''1''\<rparr>)
      \<and> block \<lparr>REPLICAS = 3, host_suffix = ''1''\<rparr> 1 2 =
        {36 ^ 2 div REPLICAS \<lparr>REPLICAS = 3, host_suffix = ''1''\<rparr> * int 1
           ..< 36 ^ 2 div REPLICAS \<lparr>REPLICAS = 3, host_suffix = ''1''\<rparr> * int 1
               + 36 ^ 2 div REPLICAS \<lparr>REPLICAS = 3, host_suffix = ''1''\<rparr>}"
    by (rule conjunct1)
  from this h have
     "generate_anchor \<lparr>REPLICAS = 3, host_suffix = ''1''\<rparr> (str 1) 2 =
        (36 ^ 2 div REPLICAS \<lparr>REPLICAS = 3, host_suffix = ''1''\<rparr> * int 1 - 1,
         (36 ^ 2 div REPLICAS \<lparr>REPLICAS = 3, host_suffix = ''1''\<rparr> * int 1 - 1)
           + 36 ^ 2 div REPLICAS \<lparr>REPLICAS = 3, host_suffix = ''1''\<rparr>)
      \<and> block \<lparr>REPLICAS = 3, host_suffix = ''1''\<rparr> 1 2 =
        {36 ^ 2 div REPLICAS \<lparr>REPLICAS = 3, host_suffix = ''1''\<rparr> * int 1
           ..< 36 ^ 2 div REPLICAS \<lparr>REPLICAS = 3, host_suffix = ''1''\<rparr> * int 1
               + 36 ^ 2 div REPLICAS \<lparr>REPLICAS = 3, host_suffix = ''1''\<rparr>}"
    by (rule mp)
  then show ?thesis by simp
qed

text \<open>
  C2 as stated fails when the count does not divide \<open>36^L\<close>: with five replicas
  and length 2 each block has \<open>1296 div 5 = 259\<close> integers, and 1295 is in no block.
\<close>

theorem blocks_leave_gap:
  "(1295::int) \<in> {0 ..< 36 ^ 2}
   \<and> 1295 \<notin> (\<Union>i \<in> {0 ..< nat (REPLICAS \<lparr>REPLICAS = 5, host_suffix = ''0''\<rparr>)}.
                  block \<lparr>REPLICAS = 5, host_suffix = ''0''\<rparr> i 2)"
  using blocks_union [of "\<lparr>REPLICAS = 5, host_suffix = ''0''\<rparr>" 2] by simp

text \<open>
  C2, amended. For every replica count \<open>\<ge> 1\<close> and every length, the blocks of the
  indices \<open>0, ..., count - 1\<close> are pairwise disjoint and their union is exactly
  \<open>[0, count * (36^L div count))\<close>, a part of \<open>[0, 36^L)\<close>; it is all of
  \<open>[0, 36^L)\<close> when the count divides \<open>36^L\<close>.
\<close>

theorem blocks_partition:
  assumes "1 \<le> REPLICAS d"
  shows "(\<forall>i j. int i < REPLICAS d \<and> int j < REPLICAS d \<and> i \<noteq> j
            \<longrightarrow> block d i L \<inter> block d j L = {})
    \<and> (\<Union>i \<in> {0 ..< nat (REPLICAS d)}. block d i L)
         = {0 ..< REPLICAS d * (36 ^ L div REPLICAS d)}
    \<and> {0 ..< REPLICAS d * (36 ^ L div REPLICAS d)} \<subseteq> {0 ..< 36 ^ L}
    \<and> (REPLICAS d dvd 36 ^ L
         \<longrightarrow> (\<Union>i \<in> {0 ..< nat (REPLICAS d)}. block d i L) = {0 ..< 36 ^ L})"
proof (intro conjI allI impI)
  fix i j assume "int i < REPLICAS d \<and> int j < REPLICAS d \<and> i \<noteq> j"
  then show "block d i L \<inter> block d j L = {}" by (simp add: blocks_disjoint)
next
  show "(\<Union>i \<in> {0 ..< nat (REPLICAS d)}. block d i L)
         = {0 ..< REPLICAS d * (36 ^ L div REPLICAS d)}"
    using assms by (rule blocks_union)
next
  have "REPLICAS d * (36 ^ L div REPLICAS d) + 36 ^ L mod REPLICAS d = 36 ^ L" by simp
  moreover from assms have "0 \<le> (36::int) ^ L mod REPLICAS d" by simp
  ultimately have "REPLICAS d * (36 ^ L div REPLICAS d) \<le> 36 ^ L" by linarith
  then show "{0 ..< REPLICAS d * (36 ^ L div REPLICAS d)} \<subseteq> {0 ..< 36 ^ L}" by simp
next
  assume "REPLICAS d dvd 36 ^ L"
  then have "REPLICAS d * (36 ^ L div REPLICAS d) = 36 ^ L" by simp
  with blocks_union [OF assms, of L]
  show "(\<Union>i \<in> {0 ..< nat (REPLICAS d)}. block d i L) = {0 ..< 36 ^ L}" by simp
qed

theorem blocks_partition_witness:
  "1 \<le> REPLICAS \<lparr>REPLICAS = 4, host_suffix = ''2''\<rparr>
   \<and> (\<Union>i \<in> {0 ..< nat (REPLICAS \<lparr>REPLICAS = 4, host_suffix = ''2''\<rparr>)}.
          block \<lparr>REPLICAS = 4, host_suffix = ''2''\<rparr> i 2) = {0 ..< 1296}"
proof -
  have h: "1 \<le> REPLICAS \<lparr>REPLICAS = 4, host_suffix = ''2''\<rparr>" by simp
  from blocks_partition [OF h, of 2]
  have "(\<Union>i \<in> {0 ..< nat (REPLICAS \<lparr>REPLICAS = 4, host_suffix = ''2''\<rparr>)}.
          block \<lparr>REPLICAS = 4, host_suffix = ''2''\<rparr> i 2)
         = {0 ..< REPLICAS \<lparr>REPLICAS = 4, host_suffix = ''2''\<rparr>
                  * (36 ^ 2 div REPLICAS \<lparr>REPLICAS = 4, host_suffix = ''2''\<rparr>)}"
    by (elim conjE)
  then have "(\<Union>i \<in> {0 ..< nat (REPLICAS \<lparr>REPLICAS = 4, host_suffix = ''2''\<rparr>)}.
          block \<lparr>REPLICAS = 4, host_suffix = ''2''\<rparr> i 2) = {0 ..< 1296}"
    by simp
  with h show ?thesis by (rule conjI)
qed

text \<open>
  C6, the code where the length grows. The key length never decreases
  (\<open>key_length_steps\<close>), but it does not grow when the cursor reaches the end of the
  block: it grows one call earlier. On the single replica, after 1295 successive
  \<open>generate_key()\<close> calls with no \<open>delete_id\<close>, the next integer to issue is
  \<open>key_anchor + 1 = 1295\<close>, the block ends at \<open>MAX + 1 = 1296\<close>, 1295 is still in the
  replica's block, \<open>deleted_ids\<close> is empty and the length is 2; the next
  \<open>generate_key()\<close> nevertheless makes the length 3. This is the test
  \<open>key_anchor >= MAX - 1\<close> of C1.
\<close>

theorem length_grows_before_limit:
  "(\<lambda>(keys, s). (length keys, key_anchor s + 1, MAX' s + 1,
                   key_anchor s + 1 \<in> block single 0 (KEY_LENGTH s),
                   deleted_ids s, KEY_LENGTH s,
                   (\<lambda>(key, s'). KEY_LENGTH s') ` generate_key single s))
      ` allocations single 1295
     = {(1295, 1295, 1296, True, {}, 2, {3})}"
  using allocations_single_before_limit [of 1295] by simp

text \<open>
  C4 as stated fails in its second half. After \<open>"00"\<close> and \<open>"01"\<close> were issued and
  \<open>delete_id("00")\<close>, \<open>delete_id("01")\<close> were called, the next \<open>generate_key()\<close> may
  return \<open>"00"\<close> rather than the key released last: \<open>set.pop()\<close> takes any member.
  And \<open>delete_id\<close> of a key that is not active changes nothing, so the next
  \<open>generate_key()\<close> after \<open>delete_id("zz")\<close> on a fresh module mints \<open>"00"\<close>.
\<close>

theorem release_not_always_next:
  "trace single
     [Allocated True ''00'', Allocated True ''01'', Released ''00'', Released ''01'']
     \<lparr>key_anchor = 1, KEY_LENGTH = 2, MAX' = 1295,
      active_ids = {}, deleted_ids = {''01'', ''00''}\<rparr>
   \<and> (''00'', \<lparr>key_anchor = 1, KEY_LENGTH = 2, MAX' = 1295,
               active_ids = {''00''}, deleted_ids = {''01''}\<rparr>)
       \<in> generate_key single
           \<lparr>key_anchor = 1, KEY_LENGTH = 2, MAX' = 1295,
            active_ids = {}, deleted_ids = {''01'', ''00''}\<rparr>
   \<and> generate_key single (delete_id ''zz'' (init single))
       = {(''00'', \<lparr>key_anchor = 0, KEY_LENGTH = 2, MAX' = 1295,
                    active_ids = {''00''}, deleted_ids = {}\<rparr>)}"
proof (intro conjI)
  show "trace single
     [Allocated True ''00'', Allocated True ''01'', Released ''00'', Released ''01'']
     \<lparr>key_anchor = 1, KEY_LENGTH = 2, MAX' = 1295,
      active_ids = {}, deleted_ids = {''01'', ''00''}\<rparr>"
    by (rule trace_single_two_released)
next
  have "{''01'', ''00''} - {''00''} = {''01''}" by auto
  then show "(''00'', \<lparr>key_anchor = 1, KEY_LENGTH = 2, MAX' = 1295,
               active_ids = {''00''}, deleted_ids = {''01''}\<rparr>)
       \<in> generate_key single
           \<lparr>key_anchor = 1, KEY_LENGTH = 2, MAX' = 1295,
            active_ids = {}, deleted_ids = {''01'', ''00''}\<rparr>"
    by (simp add: generate_key_recycle image_iff)
next
  have "delete_id ''zz'' (init single) = init single"
    by (simp add: delete_id_def init_sets)
  then show "generate_key single (delete_id ''zz'' (init single))
       = {(''00'', \<lparr>key_anchor = 0, KEY_LENGTH = 2, MAX' = 1295,
                    active_ids = {''00''}, deleted_ids = {}\<rparr>)}"
    by (simp add: generate_key_init_single)
qed

text \<open>
  C4, amended. Whenever \<open>deleted_ids\<close> is non-empty, \<open>generate_key()\<close> returns one of
  its members and mints nothing (cursor, length and block end unchanged). After
  \<open>delete_id(k)\<close> of an active key \<open>k\<close>, the next \<open>generate_key()\<close> returns \<open>k\<close> or a key
  that was in \<open>deleted_ids\<close> before; when \<open>deleted_ids\<close> was empty before, it returns
  \<open>k\<close> and restores the state. \<open>delete_id(k)\<close> of a key that is not active changes
  nothing, so the next \<open>generate_key()\<close> behaves as if it had not been called.
\<close>

theorem recycle_first:
  "(deleted_ids s \<noteq> {} \<longrightarrow>
      (\<forall>key s'. (key, s') \<in> generate_key d s \<longrightarrow>
         key \<in> deleted_ids s \<and> key_anchor s' = key_anchor s
         \<and> KEY_LENGTH s' = KEY_LENGTH s \<and> MAX' s' = MAX' s))
   \<and> (k \<in> active_ids s \<longrightarrow>
         fst ` generate_key d (delete_id k s) = insert k (deleted_ids s))
   \<and> (k \<in> active_ids s \<and> deleted_ids s = {} \<longrightarrow>
         generate_key d (delete_id k s) = {(k, s)})
   \<and> (k \<notin> active_ids s \<longrightarrow>
         delete_id k s = s \<and> generate_key d (delete_id k s) = generate_key d s)"
proof (intro conjI allI impI)
  assume "k \<notin> active_ids s"
  then show "delete_id k s = s" by (simp add: delete_id_def)
next
  assume "k \<notin> active_ids s"
  then show "generate_key d (delete_id k s) = generate_key d s" by (simp add: delete_id_def)
next
  fix key s' assume a: "deleted_ids s \<noteq> {}" "(key, s') \<in> generate_key d s"
  then show "key \<in> deleted_ids s" by (rule generate_key_recycle_frame)
  from a show "key_anchor s' = key_anchor s" by (rule generate_key_recycle_frame)
  from a show "KEY_LENGTH s' = KEY_LENGTH s" by (rule generate_key_recycle_frame)
  from a show "MAX' s' = MAX' s" by (rule generate_key_recycle_frame)
next
  assume "k \<in> active_ids s"
  then show "fst ` generate_key d (delete_id k s) = insert k (deleted_ids s)"
    by (rule release_then_generate)
next
  assume "k \<in> active_ids s \<and> deleted_ids s = {}"
  then show "generate_key d (delete_id k s) = {(k, s)}"
    by (simp add: release_then_generate_only)
qed

theorem recycle_first_witness:
  "''00'' \<in> active_ids \<lparr>key_anchor = 0, KEY_LENGTH = 2, MAX' = 1295,
                          active_ids = {''00''}, deleted_ids = {}\<rparr>
   \<and> deleted_ids \<lparr>key_anchor = 0, KEY_LENGTH = 2, MAX' = 1295,
                          active_ids = {''00''}, deleted_ids = {}\<rparr> = {}
   \<and> generate_key single
        (delete_id ''00'' \<lparr>key_anchor = 0, KEY_LENGTH = 2, MAX' = 1295,
                          active_ids = {''00''}, deleted_ids = {}\<rparr>)
      = {(''00'', \<lparr>key_anchor = 0, KEY_LENGTH = 2, MAX' = 1295,
                   active_ids = {''00''}, deleted_ids = {}\<rparr>)}
   \<and> ''zz'' \<notin> active_ids \<lparr>key_anchor = 0, KEY_LENGTH = 2, MAX' = 1295,
                          active_ids = {''00''}, deleted_ids = {}\<rparr>
   \<and> delete_id ''zz'' \<lparr>key_anchor = 0, KEY_LENGTH = 2, MAX' = 1295,
                          active_ids = {''00''}, deleted_ids = {}\<rparr>
      = \<lparr>key_anchor = 0, KEY_LENGTH = 2, MAX' = 1295,
                          active_ids = {''00''}, deleted_ids = {}\<rparr>"
proof -
  let ?s = "\<lparr>key_anchor = 0, KEY_LENGTH = 2, MAX' = 1295,
             active_ids = {''00''}, deleted_ids = {}\<rparr>"
  have h: "''00'' \<in> active_ids ?s \<and> deleted_ids ?s = {}" by simp
  from recycle_first [of ?s single "''00''"]
  have "''00'' \<in> active_ids ?s \<and> deleted_ids ?s = {} \<longrightarrow>
         generate_key single (delete_id ''00'' ?s) = {(''00'', ?s)}"
    by (elim conjE)
  from this h have g: "generate_key single (delete_id ''00'' ?s) = {(''00'', ?s)}"
    by (rule mp)
  have n: "''zz'' \<notin> active_ids ?s" by simp
  from recycle_first [of ?s single "''zz''"]
  have "''zz'' \<notin> active_ids ?s \<longrightarrow>
         delete_id ''zz'' ?s = ?s
         \<and> generate_key single (delete_id ''zz'' ?s) = generate_key single ?s"
    by (elim conjE)
  from this n have "delete_id ''zz'' ?s = ?s
         \<and> generate_key single (delete_id ''zz'' ?s) = generate_key single ?s"
    by (rule mp)
  then have z: "delete_id ''zz'' ?s = ?s" by (rule conjunct1)
  from h g n z show ?thesis by (intro conjI) simp_all
qed

text \<open>
  C7 as stated fails: nothing refuses to start. With \<open>REPLICAS = 0\<close>, or with one
  replica and \<open>host_suffix = "1"\<close>, \<open>generate_anchor\<close> falls through to
  \<open>return -1, 0\<close>, module initialisation completes, and the first
  \<open>generate_key()\<close> returns \<open>"000"\<close>.
\<close>

theorem misconfigured_allocator_starts:
  "init \<lparr>REPLICAS = 0, host_suffix = ''0''\<rparr> =
     \<lparr>key_anchor = - 1, KEY_LENGTH = 2, MAX' = 0, active_ids = {}, deleted_ids = {}\<rparr>
   \<and> generate_key \<lparr>REPLICAS = 0, host_suffix = ''0''\<rparr>
        (init \<lparr>REPLICAS = 0, host_suffix = ''0''\<rparr>) =
     {(''000'', \<lparr>key_anchor = 0, KEY_LENGTH = 3, MAX' = 0,
                 active_ids = {''000''}, deleted_ids = {}\<rparr>)}
   \<and> generate_key \<lparr>REPLICAS = 1, host_suffix = ''1''\<rparr>
        (init \<lparr>REPLICAS = 1, host_suffix = ''1''\<rparr>) =
     {(''000'', \<lparr>key_anchor = 0, KEY_LENGTH = 3, MAX' = 0,
                 active_ids = {''000''}, deleted_ids = {}\<rparr>)}"
proof (intro conjI)
  have bad0: "\<forall>i. int i < REPLICAS \<lparr>REPLICAS = 0, host_suffix = ''0''\<rparr>
      \<longrightarrow> host_suffix \<lparr>REPLICAS = 0, host_suffix = ''0''\<rparr> \<noteq> str i"
    by simp
  have bad1: "\<forall>i. int i < REPLICAS \<lparr>REPLICAS = 1, host_suffix = ''1''\<rparr>
      \<longrightarrow> host_suffix \<lparr>REPLICAS = 1, host_suffix = ''1''\<rparr> \<noteq> str i"
    by (simp add: str_0)
  have three: "replicate 3 CHR ''0'' = ''000''" by (simp add: numeral_3_eq_3)
  show i0: "init \<lparr>REPLICAS = 0, host_suffix = ''0''\<rparr> =
     \<lparr>key_anchor = - 1, KEY_LENGTH = 2, MAX' = 0, active_ids = {}, deleted_ids = {}\<rparr>"
    by (rule misconfigured_init [OF bad0])
  from misconfigured_generate_key [OF bad0 trace_init]
  show "generate_key \<lparr>REPLICAS = 0, host_suffix = ''0''\<rparr>
        (init \<lparr>REPLICAS = 0, host_suffix = ''0''\<rparr>) =
     {(''000'', \<lparr>key_anchor = 0, KEY_LENGTH = 3, MAX' = 0,
                 active_ids = {''000''}, deleted_ids = {}\<rparr>)}"
    by (simp add: i0 three)
  have i1: "init \<lparr>REPLICAS = 1, host_suffix = ''1''\<rparr> =
     \<lparr>key_anchor = - 1, KEY_LENGTH = 2, MAX' = 0, active_ids = {}, deleted_ids = {}\<rparr>"
    by (rule misconfigured_init [OF bad1])
  from misconfigured_generate_key [OF bad1 trace_init]
  show "generate_key \<lparr>REPLICAS = 1, host_suffix = ''1''\<rparr>
        (init \<lparr>REPLICAS = 1, host_suffix = ''1''\<rparr>) =
     {(''000'', \<lparr>key_anchor = 0, KEY_LENGTH = 3, MAX' = 0,
                 active_ids = {''000''}, deleted_ids = {}\<rparr>)}"
    by (simp add: i1 three)
qed

text \<open>
  C7, amended. When \<open>host_suffix\<close> is not \<open>str(i)\<close> for any \<open>i\<close> in
  \<open>range(REPLICAS)\<close> (in particular when \<open>REPLICAS\<close> is 0, or the index is outside
  \<open>[0, REPLICAS)\<close>), \<open>generate_anchor\<close> returns \<open>(-1, 0)\<close> for every length, the
  allocator starts with \<open>key_anchor = -1\<close>, \<open>MAX = 0\<close>, and in every state reached
  from there \<open>generate_key()\<close> returns a key; with \<open>deleted_ids\<close> empty it grows
  \<open>KEY_LENGTH\<close> by one, sets \<open>key_anchor = 0\<close> and returns the all-\<open>'0'\<close> key of the
  new length, so \<open>n\<close> successive calls from initialisation return
  \<open>"000"\<close>, \<open>"0000"\<close>, ... and end at length \<open>n + 2\<close>.
\<close>

theorem misconfigured_allocator_runs:
  assumes "\<forall>i. int i < REPLICAS d \<longrightarrow> host_suffix d \<noteq> str i"
  shows "generate_anchor d (host_suffix d) L = (- 1, 0)
    \<and> init d = \<lparr>key_anchor = - 1, KEY_LENGTH = 2, MAX' = 0,
                 active_ids = {}, deleted_ids = {}\<rparr>
    \<and> (trace d evs s \<longrightarrow>
          generate_key d s \<noteq> {}
          \<and> (deleted_ids s = {} \<longrightarrow>
                generate_key d s =
                  {(replicate (KEY_LENGTH s + 1) CHR ''0'',
                    s\<lparr>KEY_LENGTH := KEY_LENGTH s + 1, key_anchor := 0, MAX' := 0,
                      active_ids :=
                        insert (replicate (KEY_LENGTH s + 1) CHR ''0'') (active_ids s)\<rparr>)}))
    \<and> (\<lambda>(keys, s). (keys, KEY_LENGTH s)) ` allocations d n
         = {(map (\<lambda>j. replicate (j + 3) CHR ''0'') [0..<n], n + 2)}"
proof (intro conjI impI)
  from assms show "generate_anchor d (host_suffix d) L = (- 1, 0)"
    by (intro generate_anchor_invalid) blast
next
  from assms show "init d = \<lparr>key_anchor = - 1, KEY_LENGTH = 2, MAX' = 0,
                 active_ids = {}, deleted_ids = {}\<rparr>"
    by (rule misconfigured_init)
next
  show "generate_key d s \<noteq> {}" by (rule generate_key_nonempty)
next
  assume "trace d evs s" "deleted_ids s = {}"
  with assms show "generate_key d s =
                  {(replicate (KEY_LENGTH s + 1) CHR ''0'',
                    s\<lparr>KEY_LENGTH := KEY_LENGTH s + 1, key_anchor := 0, MAX' := 0,
                      active_ids :=
                        insert (replicate (KEY_LENGTH s + 1) CHR ''0'') (active_ids s)\<rparr>)}"
    by (rule misconfigured_generate_key)
next
  show "(\<lambda>(keys, s). (keys, KEY_LENGTH s)) ` allocations d n
         = {(map (\<lambda>j. replicate (j + 3) CHR ''0'') [0..<n], n + 2)}"
    by (simp only: allocations_misconfigured [OF assms] image_insert image_empty
        prod.case allocator.simps)
qed

theorem misconfigured_allocator_runs_witness:
  "REPLICAS \<lparr>REPLICAS = 0, host_suffix = ''0''\<rparr> = 0
   \<and> trace \<lparr>REPLICAS = 0, host_suffix = ''0''\<rparr> [] (init \<lparr>REPLICAS = 0, host_suffix = ''0''\<rparr>)
   \<and> deleted_ids (init \<lparr>REPLICAS = 0, host_suffix = ''0''\<rparr>) = {}
   \<and> generate_key \<lparr>REPLICAS = 0, host_suffix = ''0''\<rparr>
              (init \<lparr>REPLICAS = 0, host_suffix = ''0''\<rparr>) =
       {(''000'', \<lparr>key_anchor = 0, KEY_LENGTH = 3, MAX' = 0,
                   active_ids = {''000''}, deleted_ids = {}\<rparr>)}
   \<and> (\<lambda>(keys, s). (keys, KEY_LENGTH s)) ` allocations \<lparr>REPLICAS = 0, host_suffix = ''0''\<rparr> 3
       = {([''000'', ''0000'', ''00000''], 5)}"
proof -
  let ?d = "\<lparr>REPLICAS = 0, host_suffix = ''0''\<rparr>"
  have bad: "\<forall>i. int i < REPLICAS ?d \<longrightarrow> host_suffix ?d \<noteq> str i" by simp
  have t: "trace ?d [] (init ?d)" by (rule trace_init)
  have e: "deleted_ids (init ?d) = {}" by (rule init_sets)
  note inst = misconfigured_allocator_runs [OF bad, of 2 "[]" "init ?d" 3]
  from inst have i: "init ?d = \<lparr>key_anchor = - 1, KEY_LENGTH = 2, MAX' = 0,
                 active_ids = {}, deleted_ids = {}\<rparr>"
    by (elim conjE)
  from inst have "trace ?d [] (init ?d) \<longrightarrow>
          generate_key ?d (init ?d) \<noteq> {}
          \<and> (deleted_ids (init ?d) = {} \<longrightarrow>
                generate_key ?d (init ?d) =
                  {(replicate (KEY_LENGTH (init ?d) + 1) CHR ''0'',
                    (init ?d)\<lparr>KEY_LENGTH := KEY_LENGTH (init ?d) + 1, key_anchor := 0, MAX' := 0,
                      active_ids :=
                        insert (replicate (KEY_LENGTH (init ?d) + 1) CHR ''0'')
                          (active_ids (init ?d))\<rparr>)})"
    by (elim conjE)
  with t e have "generate_key ?d (init ?d) =
                  {(replicate (KEY_LENGTH (init ?d) + 1) CHR ''0'',
                    (init ?d)\<lparr>KEY_LENGTH := KEY_LENGTH (init ?d) + 1, key_anchor := 0, MAX' := 0,
                      active_ids :=
                        insert (replicate (KEY_LENGTH (init ?d) + 1) CHR ''0'')
                          (active_ids (init ?d))\<rparr>)}"
    by blast
  then have g: "generate_key ?d (init ?d) =
       {(''000'', \<lparr>key_anchor = 0, KEY_LENGTH = 3, MAX' = 0,
                   active_ids = {''000''}, deleted_ids = {}\<rparr>)}"
    by (simp add: i numeral_3_eq_3)
  from inst have "(\<lambda>(keys, s). (keys, KEY_LENGTH s)) ` allocations ?d 3
         = {(map (\<lambda>j. replicate (j + 3) CHR ''0'') [0..<3], 3 + 2)}"
    by (elim conjE)
  moreover have "map (\<lambda>j. replicate (j + 3) CHR ''0'') [0..<3] = [''000'', ''0000'', ''00000'']"
    by code_simp
  ultimately have a: "(\<lambda>(keys, s). (keys, KEY_LENGTH s)) ` allocations ?d 3
       = {([''000'', ''0000'', ''00000''], 5)}"
    by simp
  have r: "REPLICAS ?d = 0" by simp
  from r t e g a show ?thesis by (intro conjI)
qed

text \<open>
  C3. In any sequence of \<open>generate_key()\<close> and \<open>delete_id()\<close> calls from module
  initialisation, for any deployment, the keys returned by the minting branch
  of \<open>generate_key\<close> are pairwise distinct, also across expansions of the key
  length: within one length the minted integers increase and stay below
  \<open>36^L\<close>, where the encoding is injective, and keys of different lengths differ.
\<close>

theorem fresh_keys_distinct:
  assumes "trace d evs s"
  shows "distinct (fresh_keys evs)"
  using trace_fresh_invariant [OF assms] by simp

theorem fresh_keys_distinct_witness:
  "trace single [Allocated True ''00'', Allocated True ''01'']
     \<lparr>key_anchor = 1, KEY_LENGTH = 2, MAX' = 1295,
      active_ids = {''01'', ''00''}, deleted_ids = {}\<rparr>
   \<and> fresh_keys [Allocated True ''00'', Allocated True ''01''] = [''00'', ''01'']
   \<and> distinct (fresh_keys [Allocated True ''00'', Allocated True ''01''])"
proof -
  note t = trace_single_two
  from fresh_keys_distinct [OF t]
  have "distinct (fresh_keys [Allocated True ''00'', Allocated True ''01''])" .
  moreover have "fresh_keys [Allocated True ''00'', Allocated True ''01''] = [''00'', ''01'']"
    by simp
  ultimately show ?thesis using t by (intro conjI)
qed

end
